theory Spec2Isabelle
  imports Complex_Main
begin

section \<open>Common modelling conventions\<close>

text \<open>
  The two scripts \<^verbatim>\<open>scripts/populate_data.py\<close> and \<^verbatim>\<open>scripts/performance_test.py\<close>
  are embedded as HOL functions.

  \<^item> A raised Python exception is the left injection of a sum type; the only exception the
    scripts raise themselves is \<^verbatim>\<open>ValueError\<close>; the library calls modelled here raise
    \<^verbatim>\<open>ValueError\<close>, and an array index out of range raises \<^verbatim>\<open>IndexError\<close>.
  \<^item> Python's \<^verbatim>\<open>int\<close> is \<^typ>\<open>int\<close>.
  \<^item> Python's \<^verbatim>\<open>float\<close> (durations in milliseconds, numpy samples) is \<^typ>\<open>real\<close>: the
    arithmetic is exact, rounding of IEEE doubles is not part of the model.
  \<^item> The pseudo random generator of module \<^verbatim>\<open>random\<close> is a stream of raw draws
    \<open>rng :: nat \<Rightarrow> nat\<close> read at a position that each call advances; every library call
    maps a raw draw onto its documented range, so every value the library may return is
    the image of some raw draw.
\<close>

datatype py_error = ValueError string | IndexError string

type_synonym rng = "nat \<Rightarrow> nat"

text \<open>\<^verbatim>\<open>random.randint(a, b)\<close>: an integer of \<open>[a, b]\<close>. Every call site has \<open>a \<le> b\<close>
  (constants, or bounds that passed the range check of the benchmark).\<close>

definition randint :: "int \<Rightarrow> int \<Rightarrow> nat \<Rightarrow> int" where
  "randint a b r = a + int (r mod nat (b - a + 1))"

text \<open>\<^verbatim>\<open>random.choice(seq)\<close> on a non-empty sequence.\<close>

definition choice :: "'a list \<Rightarrow> nat \<Rightarrow> 'a" where
  "choice xs r = xs ! (r mod length xs)"

text \<open>\<^verbatim>\<open>random.sample(population, k)\<close>: \<open>k\<close> elements at distinct positions of the
  population, chosen one after the other among the positions not yet chosen; it raises
  \<^verbatim>\<open>ValueError\<close> when \<open>k\<close> is negative or exceeds the size of the population.\<close>

fun sample_from :: "rng \<Rightarrow> nat \<Rightarrow> 'a list \<Rightarrow> nat \<Rightarrow> 'a list" where
  "sample_from rng p pool 0 = []"
| "sample_from rng p pool (Suc k) =
     (let j = rng p mod length pool
      in pool ! j # sample_from rng (Suc p) (take j pool @ drop (Suc j) pool) k)"

definition random_sample :: "rng \<Rightarrow> nat \<Rightarrow> 'a list \<Rightarrow> int \<Rightarrow> py_error + 'a list" where
  "random_sample rng p population k =
     (if k < 0 \<or> int (length population) < k
      then Inl (ValueError ''Sample larger than population or is negative'')
      else Inr (sample_from rng p population (nat k)))"

text \<open>\<^verbatim>\<open>str\<close> of an integer, as the f-strings format it.\<close>

fun str_of_nat :: "nat \<Rightarrow> string" where
  "str_of_nat n =
     (if n < 10 then [''0123456789'' ! n]
      else str_of_nat (n div 10) @ [''0123456789'' ! (n mod 10)])"

declare str_of_nat.simps [simp del]

definition str_of_int :: "int \<Rightarrow> string" where
  "str_of_int i = (if i < 0 then ''-'' @ str_of_nat (nat (- i)) else str_of_nat (nat i))"

section \<open>populate\_data.py: \<^verbatim>\<open>generate_usernames\<close>\<close>

definition prefixes :: "string list" where
  "prefixes = [''Player'', ''Gamer'', ''Pro'', ''Master'', ''Noob'', ''Elite'', ''Super'', ''Mega'',
     ''Ultra'', ''Alpha'']"

definition suffixes :: "string list" where
  "suffixes = [''2023'', ''Gaming'', ''XD'', ''Pro'', ''Best'', ''King'', ''Queen'', ''Star'', ''Hero'',
     ''Legend'']"

text \<open>
  The body of the \<^verbatim>\<open>while\<close> loop, after \<^verbatim>\<open>attempts += 1\<close>: the candidate of this attempt
  and the position of the generator after it. The f-strings evaluate their fields from
  left to right.
  \<^verbatim>\<open>
  if attempts % 3 == 0:
      username = f"{random.choice(prefixes)}{random.randint(1, 99999)}"
  elif attempts % 3 == 1:
      username = f"{random.choice(prefixes)}{random.choice(suffixes)}{random.randint(1, 999)}"
  else:
      username = f"User{len(usernames)+1}_{random.randint(100, 99999)}"
  \<close>
\<close>

definition candidate :: "rng \<Rightarrow> int \<Rightarrow> string list \<Rightarrow> nat \<Rightarrow> string \<times> nat" where
  "candidate rng attempts usernames p =
     (if attempts mod 3 = 0 then
        (choice prefixes (rng p) @ str_of_int (randint 1 99999 (rng (p + 1))), p + 2)
      else if attempts mod 3 = 1 then
        (choice prefixes (rng p) @ choice suffixes (rng (p + 1))
           @ str_of_int (randint 1 999 (rng (p + 2))), p + 3)
      else
        (''User'' @ str_of_nat (length usernames + 1) @ ''_''
           @ str_of_int (randint 100 99999 (rng p)), p + 1))"

text \<open>
  \<^verbatim>\<open>if username not in usernames: usernames.add(username)\<close>. The set is a list without
  repetitions, in the order of insertion.
\<close>

definition admit :: "string \<Rightarrow> string list \<Rightarrow> string list" where
  "admit username usernames =
     (if username \<notin> set usernames then usernames @ [username] else usernames)"

text \<open>
  \<^verbatim>\<open>while len(usernames) < count and attempts < max_attempts:\<close> on the state
  \<open>(usernames, attempts, position of the generator)\<close>; the result is the state in which
  the loop is left.
\<close>

function username_loop ::
  "rng \<Rightarrow> int \<Rightarrow> int \<Rightarrow> string list \<times> int \<times> nat \<Rightarrow> string list \<times> int \<times> nat" where
  "username_loop rng count max_attempts (usernames, attempts, p) =
     (if int (length usernames) < count \<and> attempts < max_attempts
      then username_loop rng count max_attempts
             (admit (fst (candidate rng (attempts + 1) usernames p)) usernames,
              attempts + 1,
              snd (candidate rng (attempts + 1) usernames p))
      else (usernames, attempts, p))"
  by pat_completeness auto
termination
  by (relation "measure (\<lambda>(rng, count, max_attempts, usernames, attempts, p).
        nat (max_attempts - attempts))") auto

declare username_loop.simps [simp del]

text \<open>
  \<^verbatim>\<open>
  max_attempts = count * 10
  ... the loop ...
  if len(usernames) < count:
      raise ValueError(f"Impossibile generare {count} username univoci dopo {max_attempts} tentativi")
  return list(usernames)
  \<close>
  \<^verbatim>\<open>list(usernames)\<close> enumerates the set in an order Python does not specify; the model
  returns the order of insertion.
\<close>

definition generate_usernames :: "rng \<Rightarrow> int \<Rightarrow> py_error + string list" where
  "generate_usernames rng count =
     (let max_attempts = count * 10;
          usernames = fst (username_loop rng count max_attempts ([], 0, 0))
      in if int (length usernames) < count
         then Inl (ValueError (''Impossibile generare '' @ str_of_int count
                @ '' username univoci dopo '' @ str_of_int max_attempts @ '' tentativi''))
         else Inr usernames)"

section \<open>populate\_data.py: \<^verbatim>\<open>generate_scores\<close>\<close>

text \<open>
  \<^verbatim>\<open>np.random.normal(1000, 300, count)\<close>, \<^verbatim>\<open>np.random.exponential(scale, count)\<close> and
  \<^verbatim>\<open>np.random.uniform(0, 5000, count)\<close> return an array of \<open>count\<close> samples and raise
  \<^verbatim>\<open>ValueError\<close> for a negative size. The samples of the call are the first \<open>count\<close>
  values of a stream \<open>samples :: nat \<Rightarrow> real\<close>, which stands for whatever the selected
  distribution yields.
\<close>

definition np_random_draw :: "(nat \<Rightarrow> real) \<Rightarrow> int \<Rightarrow> py_error + real list" where
  "np_random_draw samples count =
     (if count < 0 then Inl (ValueError ''negative dimensions are not allowed'')
      else Inr (map samples [0 ..< nat count]))"

text \<open>
  \<^verbatim>\<open>for idx in pro_indices: base_scores[idx] += random.randint(5000, 15000)\<close>; an index
  outside the array raises \<^verbatim>\<open>IndexError\<close>.
\<close>

fun add_pro_bonus :: "rng \<Rightarrow> nat \<Rightarrow> real list \<Rightarrow> nat list \<Rightarrow> py_error + real list" where
  "add_pro_bonus rng p base_scores [] = Inr base_scores"
| "add_pro_bonus rng p base_scores (idx # rest) =
     (if idx < length base_scores
      then add_pro_bonus rng (Suc p)
             (base_scores[idx := base_scores ! idx + real_of_int (randint 5000 15000 (rng p))])
             rest
      else Inl (IndexError ''index out of bounds''))"

text \<open>\<^verbatim>\<open>scores.astype(int)\<close> truncates towards zero (for samples within the range of
  the 64-bit integers of numpy, which is not modelled).\<close>

definition astype_int :: "real \<Rightarrow> int" where
  "astype_int x = (if x < 0 then \<lceil>x\<rceil> else \<lfloor>x\<rfloor>)"

text \<open>
  \<^verbatim>\<open>
  scores = np.maximum(0, scores.astype(int))
  print(f"   Min: {np.min(scores)}")
  ...
  return scores.tolist()
  \<close>
  The first statistic printed, \<^verbatim>\<open>np.min(scores)\<close>, raises \<^verbatim>\<open>ValueError\<close> on an array
  of size zero.
\<close>

definition finish_scores :: "real list \<Rightarrow> py_error + int list" where
  "finish_scores arr =
     (let scores = map (\<lambda>x. max 0 (astype_int x)) arr
      in if scores = []
         then Inl (ValueError ''zero-size array to reduction operation minimum which has no identity'')
         else Inr scores)"

text \<open>The array of samples before the conversion, per distribution.\<close>

definition sampled_scores ::
  "(nat \<Rightarrow> real) \<Rightarrow> rng \<Rightarrow> int \<Rightarrow> string \<Rightarrow> py_error + real list" where
  "sampled_scores samples rng count distribution =
     (if distribution = ''normal'' then np_random_draw samples count
      else if distribution = ''skewed'' then
        (case np_random_draw samples count of
           Inl e \<Rightarrow> Inl e
         | Inr base_scores \<Rightarrow>
             (let num_pros = max 1 (count div 100)
              in case random_sample rng 0 [0 ..< nat count] num_pros of
                   Inl e \<Rightarrow> Inl e
                 | Inr pro_indices \<Rightarrow>
                     add_pro_bonus rng (nat num_pros) base_scores pro_indices))
      else if distribution = ''uniform'' then np_random_draw samples count
      else if distribution = ''exponential'' then np_random_draw samples count
      else Inl (ValueError (''Distribuzione '' @ distribution @ '' non supportata'')))"

definition generate_scores ::
  "(nat \<Rightarrow> real) \<Rightarrow> rng \<Rightarrow> int \<Rightarrow> string \<Rightarrow> py_error + int list" where
  "generate_scores samples rng count distribution =
     (case sampled_scores samples rng count distribution of
        Inl e \<Rightarrow> Inl e
      | Inr scores \<Rightarrow> finish_scores scores)"

section \<open>populate\_data.py: \<^verbatim>\<open>insert_leaderboard_batch\<close>, construction of the rows\<close>

text \<open>
  \<^verbatim>\<open>
  leaderboard_data = []
  for i, score in enumerate(scores):
      user_id = i + 1
      games_played = random.randint(1, 100)
      leaderboard_data.append((user_id, score, games_played))
  \<close>
  The loop is a recursion over the remaining scores that carries the index \<open>i\<close>; the \<open>i\<close>-th
  iteration reads the raw draw at position \<open>p + i\<close>.
\<close>

type_synonym leaderboard_tuple = "int \<times> int \<times> int"

fun leaderboard_rows :: "rng \<Rightarrow> nat \<Rightarrow> nat \<Rightarrow> int list \<Rightarrow> leaderboard_tuple list" where
  "leaderboard_rows rng p i [] = []"
| "leaderboard_rows rng p i (score # rest) =
     (let user_id = int i + 1;
          games_played = randint 1 100 (rng p)
      in (user_id, score, games_played) # leaderboard_rows rng (Suc p) (Suc i) rest)"

definition leaderboard_data :: "rng \<Rightarrow> int list \<Rightarrow> leaderboard_tuple list" where
  "leaderboard_data rng scores = leaderboard_rows rng 0 0 scores"

section \<open>performance\_test.py: the range of user ids of a benchmark\<close>

text \<open>
  The three benchmarks that draw a user id (\<^verbatim>\<open>test_score_update_performance\<close>,
  \<^verbatim>\<open>test_user_ranking_performance\<close>, \<^verbatim>\<open>test_user_ranking_with_window_function\<close>) start
  with the same statements:
  \<^verbatim>\<open>
  cursor.execute("SELECT MIN(user_id), MAX(user_id) FROM leaderboard")
  result = cursor.fetchone()
  if result is None or result['min'] is None:
      raise ValueError("Database vuoto: nessun record nella tabella leaderboard")
  min_user_id, max_user_id = int(result['min']), int(result['max'])
  max_test_user = min(max_user_id, user_sample)
  if max_test_user < min_user_id:
      max_test_user = max_user_id
  if min_user_id > max_test_user:
      raise ValueError(f"Range invalido: ...")
  \<close>
  The row fetched is \<open>None\<close>, or a pair of nullable aggregates. With \<open>min\<close> present the
  aggregate \<open>max\<close> of the same query is present as well; the model reads an absent \<open>max\<close>
  as the failure of \<^verbatim>\<open>int(None)\<close>, which Python reports as a \<^verbatim>\<open>TypeError\<close> and which is
  folded into the error type here.
\<close>

type_synonym bounds_row = "(int option \<times> int option) option"

definition max_test_user_of :: "int \<Rightarrow> int \<Rightarrow> int \<Rightarrow> int" where
  "max_test_user_of min_user_id max_user_id user_sample =
     (let max_test_user = min max_user_id user_sample
      in if max_test_user < min_user_id then max_user_id else max_test_user)"

definition user_id_range :: "bounds_row \<Rightarrow> int \<Rightarrow> py_error + (int \<times> int)" where
  "user_id_range result user_sample =
     (case result of
        None \<Rightarrow> Inl (ValueError ''Database vuoto: nessun record nella tabella leaderboard'')
      | Some (None, _) \<Rightarrow> Inl (ValueError ''Database vuoto: nessun record nella tabella leaderboard'')
      | Some (Some min_user_id, None) \<Rightarrow> Inl (ValueError ''int(None)'')
      | Some (Some min_user_id, Some max_user_id) \<Rightarrow>
          (let max_test_user = max_test_user_of min_user_id max_user_id user_sample
           in if min_user_id > max_test_user
              then Inl (ValueError ''Range invalido'')
              else Inr (min_user_id, max_test_user)))"

text \<open>\<^verbatim>\<open>user_id = random.randint(min_user_id, max_test_user)\<close>, the first statement of
  every trial.\<close>

definition draw_user_id :: "bounds_row \<Rightarrow> int \<Rightarrow> nat \<Rightarrow> py_error + int" where
  "draw_user_id result user_sample r =
     (case user_id_range result user_sample of
        Inl e \<Rightarrow> Inl e
      | Inr (min_user_id, max_test_user) \<Rightarrow> Inr (randint min_user_id max_test_user r))"

section \<open>performance\_test.py: \<^verbatim>\<open>_calculate_statistics\<close>\<close>

text \<open>
  The library functions the statistics use, from their documentation. Each of them is
  called under the guard \<^verbatim>\<open>if not times: return ...\<close>, that is on a non-empty list only
  (on the empty list \<^verbatim>\<open>min\<close>, \<^verbatim>\<open>max\<close>, \<^verbatim>\<open>statistics.mean\<close> and \<^verbatim>\<open>statistics.median\<close>
  raise; the definitions below are never applied to it).

  \<^item> \<^verbatim>\<open>min\<close>, \<^verbatim>\<open>max\<close>: one pass from the first element.
  \<^item> \<^verbatim>\<open>statistics.mean\<close>: the sum over the number of values.
  \<^item> \<^verbatim>\<open>statistics.median\<close>: the middle value of the sorted data, the mean of the two
    middle values when their number is even.
  \<^item> \<^verbatim>\<open>statistics.stdev\<close>: the square root of the sample variance, divisor \<open>n - 1\<close>.
  \<^item> \<^verbatim>\<open>np.percentile(a, q)\<close>, default method \<^verbatim>\<open>linear\<close>: the virtual index
    \<open>(n - 1) * q / 100\<close> in the sorted data, the two neighbouring order statistics (both
    the last one when the virtual index reaches \<open>n - 1\<close>) and numpy's interpolation
    \<^verbatim>\<open>_lerp\<close>, which computes \<open>a + (b - a) * t\<close> and replaces it by
    \<open>b - (b - a) * (1 - t)\<close> where \<open>t \<ge> 0.5\<close>.
\<close>

definition py_min :: "real list \<Rightarrow> real" where
  "py_min xs = fold min (tl xs) (hd xs)"

definition py_max :: "real list \<Rightarrow> real" where
  "py_max xs = fold max (tl xs) (hd xs)"

definition statistics_mean :: "real list \<Rightarrow> real" where
  "statistics_mean xs = sum_list xs / real (length xs)"

definition statistics_median :: "real list \<Rightarrow> real" where
  "statistics_median xs =
     (let data = sort xs; n = length data
      in if n mod 2 = 1 then data ! (n div 2)
         else (let i = n div 2 in (data ! (i - 1) + data ! i) / 2))"

definition statistics_stdev :: "real list \<Rightarrow> real" where
  "statistics_stdev xs =
     (let c = statistics_mean xs
      in sqrt (sum_list (map (\<lambda>x. (x - c)\<^sup>2) xs) / real (length xs - 1)))"

definition lerp :: "real \<Rightarrow> real \<Rightarrow> real \<Rightarrow> real" where
  "lerp a b t = (if t \<ge> 1 / 2 then b - (b - a) * (1 - t) else a + (b - a) * t)"

definition np_percentile :: "real list \<Rightarrow> real \<Rightarrow> real" where
  "np_percentile xs q =
     (let arr = sort xs;
          n = length arr;
          virtual_index = real (n - 1) * (q / 100);
          previous_index = nat \<lfloor>virtual_index\<rfloor>;
          gamma = virtual_index - real previous_index
      in if virtual_index \<ge> real (n - 1)
         then lerp (arr ! (n - 1)) (arr ! (n - 1)) gamma
         else lerp (arr ! previous_index) (arr ! (previous_index + 1)) gamma)"

text \<open>
  The dictionary \<^verbatim>\<open>_calculate_statistics\<close> returns has one of two shapes: the single key
  \<^verbatim>\<open>'error'\<close>, or the ten keys of the statistics. \<^verbatim>\<open>ops_per_second\<close> is a float that may
  be \<^verbatim>\<open>float('inf')\<close>.
\<close>

datatype throughput = Ops real | Infinite

record operation_stats =
  operation :: string
  sample_size :: nat
  min_ms :: real
  max_ms :: real
  mean_ms :: real
  median_ms :: real
  stdev_ms :: real
  p95_ms :: real
  p99_ms :: real
  ops_per_second :: throughput

datatype stats_dict = ErrorDict string | Stats operation_stats

definition calculate_statistics :: "real list \<Rightarrow> string \<Rightarrow> stats_dict" where
  "calculate_statistics times_list operation_name =
     (if times_list = [] then ErrorDict ''Nessun dato disponibile''
      else
        (let mean = statistics_mean times_list
         in Stats \<lparr>
              operation = operation_name,
              sample_size = length times_list,
              min_ms = py_min times_list,
              max_ms = py_max times_list,
              mean_ms = mean,
              median_ms = statistics_median times_list,
              stdev_ms = (if length times_list > 1 then statistics_stdev times_list else 0),
              p95_ms = np_percentile times_list 95,
              p99_ms = np_percentile times_list 99,
              ops_per_second = (if mean > 0 then Ops (1000 / mean) else Infinite) \<rparr>))"

section \<open>performance\_test.py: warm-up, timed trials and the suite\<close>

text \<open>
  The database is outside the program. What it answers is an input of the model:
  \<^item> \<open>bounds_result\<close>: the row fetched for \<^verbatim>\<open>SELECT MIN(user_id), MAX(user_id)\<close>;
  \<^item> for every \<^verbatim>\<open>try\<close> block that executes a statement and commits, an \<open>attempt\<close>: the
    statement (or the fetch of its rows) raises, the commit raises, or both succeed;
  \<^item> for every trial, the two readings of \<^verbatim>\<open>time.perf_counter()\<close>.
  \<^verbatim>\<open>connection.rollback()\<close> in an \<^verbatim>\<open>except\<close> branch is taken not to raise. What the
  program does to the connection is recorded as the list of calls it made.
\<close>

datatype query =
    BoundsQuery
  | UpdateScore int int
  | SelectTop int
  | RankByCount int
  | RankByWindow int
  | WarmUpQuery nat
  | ResetStatements

datatype db_call = Execute query | Commit | Rollback

datatype attempt = ExecuteFails | CommitFails | Succeeds

record trial =
  outcome :: attempt
  start_time :: real
  end_time :: real

record db_env =
  bounds_result :: bounds_row
  warm_up_outcome :: "nat \<Rightarrow> nat \<Rightarrow> attempt"
  reset_outcome :: attempt
  trial_of :: "string \<Rightarrow> nat \<Rightarrow> trial"

text \<open>
  The state of a \<^verbatim>\<open>PerformanceTester\<close>: the calls made on its connection, the position of
  the random generator, and \<^verbatim>\<open>self.results['tests']\<close>. The lists \<^verbatim>\<open>times\<close> are local
  variables of the four benchmark methods; no other method can reach them.
\<close>

record tester =
  connection :: "db_call list"
  rng_pos :: nat
  tests :: "string \<rightharpoonup> stats_dict"

text \<open>
  \<^verbatim>\<open>
  try:
      cursor.execute(query); [fetch]; self.connection.commit()
  except Exception:
      self.connection.rollback()
  \<close>
\<close>

definition attempt_calls :: "query \<Rightarrow> attempt \<Rightarrow> db_call list" where
  "attempt_calls q a =
     (case a of
        ExecuteFails \<Rightarrow> [Execute q, Rollback]
      | CommitFails \<Rightarrow> [Execute q, Commit, Rollback]
      | Succeeds \<Rightarrow> [Execute q, Commit])"

text \<open>
  \<^verbatim>\<open>warm_up_queries\<close>: \<open>iterations\<close> rounds over the three warm-up statements, each in its
  own \<^verbatim>\<open>try\<close> block.
\<close>

definition warm_up_queries :: "db_env \<Rightarrow> int \<Rightarrow> tester \<Rightarrow> tester" where
  "warm_up_queries env iterations s =
     s\<lparr>connection :=
         fold (\<lambda>round conn.
                 fold (\<lambda>j c. c @ attempt_calls (WarmUpQuery j) (warm_up_outcome env round j))
                   [0 ..< 3] conn)
           [0 ..< nat iterations] (connection s)\<rparr>"

text \<open>
  One iteration of a benchmark loop, on the pair of the list \<^verbatim>\<open>times\<close> and the calls
  made so far:
  \<^verbatim>\<open>
  start_time = time.perf_counter()
  try:
      cursor.execute(...); [fetch]; self.connection.commit()
      end_time = time.perf_counter()
      execution_time = (end_time - start_time) * 1000
      times.append(execution_time)
  except Exception as e:
      self.connection.rollback()
  \<close>
  \<open>q i\<close> is the statement of iteration \<open>i\<close> with its randomised arguments.
\<close>

definition trial_step ::
  "(nat \<Rightarrow> query) \<Rightarrow> (nat \<Rightarrow> trial) \<Rightarrow> nat \<Rightarrow> real list \<times> db_call list
     \<Rightarrow> real list \<times> db_call list" where
  "trial_step q tr i st =
     (let t = tr i;
          conn = snd st @ attempt_calls (q i) (outcome t)
      in if outcome t = Succeeds
         then (fst st @ [(end_time t - start_time t) * 1000], conn)
         else (fst st, conn))"

text \<open>\<^verbatim>\<open>for i in range(iterations): ...\<close>\<close>

definition timed_trials ::
  "(nat \<Rightarrow> query) \<Rightarrow> (nat \<Rightarrow> trial) \<Rightarrow> int \<Rightarrow> real list \<times> db_call list
     \<Rightarrow> real list \<times> db_call list" where
  "timed_trials q tr iterations st = fold (trial_step q tr) [0 ..< nat iterations] st"

text \<open>
  \<^verbatim>\<open>test_score_update_performance\<close>: two draws per iteration, the user id and then the
  increment; the arguments of the statement are \<^verbatim>\<open>(score_increment, user_id)\<close>.
\<close>

definition test_score_update_performance ::
  "db_env \<Rightarrow> rng \<Rightarrow> tester \<Rightarrow> int \<Rightarrow> int \<Rightarrow> py_error + (stats_dict \<times> tester)" where
  "test_score_update_performance env rng s iterations user_sample =
     (case user_id_range (bounds_result env) user_sample of
        Inl e \<Rightarrow> Inl e
      | Inr (min_user_id, max_test_user) \<Rightarrow>
          (let p = rng_pos s;
               q = (\<lambda>i. UpdateScore (randint 10 500 (rng (p + 2 * i + 1)))
                                     (randint min_user_id max_test_user (rng (p + 2 * i))));
               r = timed_trials q (trial_of env ''score_update'') iterations
                     ([], connection s @ [Execute BoundsQuery])
           in Inr (calculate_statistics (fst r) ''UPDATE Score'',
                   s\<lparr>connection := snd r, rng_pos := p + 2 * nat iterations\<rparr>)))"

text \<open>\<^verbatim>\<open>test_top_leaderboard_performance\<close>: no user id, no bounds.\<close>

definition test_top_leaderboard_performance ::
  "db_env \<Rightarrow> tester \<Rightarrow> int \<Rightarrow> int \<Rightarrow> stats_dict \<times> tester" where
  "test_top_leaderboard_performance env s iterations limit =
     (let r = timed_trials (\<lambda>i. SelectTop limit) (trial_of env ''top_leaderboard'') iterations
                ([], connection s)
      in (calculate_statistics (fst r) (''SELECT TOP '' @ str_of_int limit),
          s\<lparr>connection := snd r\<rparr>))"

text \<open>\<^verbatim>\<open>test_user_ranking_performance\<close>: the rank by counting, one draw per iteration.\<close>

definition test_user_ranking_performance ::
  "db_env \<Rightarrow> rng \<Rightarrow> tester \<Rightarrow> int \<Rightarrow> int \<Rightarrow> py_error + (stats_dict \<times> tester)" where
  "test_user_ranking_performance env rng s iterations user_sample =
     (case user_id_range (bounds_result env) user_sample of
        Inl e \<Rightarrow> Inl e
      | Inr (min_user_id, max_test_user) \<Rightarrow>
          (let p = rng_pos s;
               q = (\<lambda>i. RankByCount (randint min_user_id max_test_user (rng (p + i))));
               r = timed_trials q (trial_of env ''user_ranking'') iterations
                     ([], connection s @ [Execute BoundsQuery])
           in Inr (calculate_statistics (fst r) ''Calcolo Posizione Utente'',
                   s\<lparr>connection := snd r, rng_pos := p + nat iterations\<rparr>)))"

text \<open>\<^verbatim>\<open>test_user_ranking_with_window_function\<close>: the rank by the window function.\<close>

definition test_user_ranking_with_window_function ::
  "db_env \<Rightarrow> rng \<Rightarrow> tester \<Rightarrow> int \<Rightarrow> int \<Rightarrow> py_error + (stats_dict \<times> tester)" where
  "test_user_ranking_with_window_function env rng s iterations user_sample =
     (case user_id_range (bounds_result env) user_sample of
        Inl e \<Rightarrow> Inl e
      | Inr (min_user_id, max_test_user) \<Rightarrow>
          (let p = rng_pos s;
               q = (\<lambda>i. RankByWindow (randint min_user_id max_test_user (rng (p + i))));
               r = timed_trials q (trial_of env ''user_ranking_window'') iterations
                     ([], connection s @ [Execute BoundsQuery])
           in Inr (calculate_statistics (fst r) ''Posizione con WINDOW Function'',
                   s\<lparr>connection := snd r, rng_pos := p + nat iterations\<rparr>)))"

text \<open>
  The reset of \<^verbatim>\<open>pg_stat_statements\<close> in \<^verbatim>\<open>run_complete_test_suite\<close>: its \<^verbatim>\<open>except\<close>
  branch only prints.
\<close>

definition reset_calls :: "attempt \<Rightarrow> db_call list" where
  "reset_calls a =
     (case a of
        ExecuteFails \<Rightarrow> [Execute ResetStatements]
      | CommitFails \<Rightarrow> [Execute ResetStatements, Commit]
      | Succeeds \<Rightarrow> [Execute ResetStatements, Commit])"

text \<open>
  \<^verbatim>\<open>run_complete_test_suite\<close>: the warm-up with its default of 10 rounds, the reset, and
  the four benchmarks in their fixed order, each stored under its key of
  \<^verbatim>\<open>self.results['tests']\<close>. An exception of a benchmark leaves the method. The two
  methods that collect statistics of the database catch their own exceptions and write
  to other keys of \<^verbatim>\<open>self.results\<close>; they are left out.
\<close>

definition run_complete_test_suite ::
  "db_env \<Rightarrow> rng \<Rightarrow> tester \<Rightarrow> int \<Rightarrow> int \<Rightarrow> py_error + tester" where
  "run_complete_test_suite env rng s iterations user_sample =
     (let s1 = warm_up_queries env 10 s;
          s2 = s1\<lparr>connection := connection s1 @ reset_calls (reset_outcome env)\<rparr>
      in case test_score_update_performance env rng s2 iterations user_sample of
           Inl e \<Rightarrow> Inl e
         | Inr (d1, s3) \<Rightarrow>
             (let s4 = s3\<lparr>tests := (tests s3)(''score_update'' \<mapsto> d1)\<rparr>;
                  (d2, s5) = test_top_leaderboard_performance env s4 iterations 10;
                  s6 = s5\<lparr>tests := (tests s5)(''top_leaderboard'' \<mapsto> d2)\<rparr>
              in case test_user_ranking_performance env rng s6 iterations user_sample of
                   Inl e \<Rightarrow> Inl e
                 | Inr (d3, s7) \<Rightarrow>
                     (let s8 = s7\<lparr>tests := (tests s7)(''user_ranking'' \<mapsto> d3)\<rparr>
                      in case test_user_ranking_with_window_function env rng s8 iterations
                                user_sample of
                           Inl e \<Rightarrow> Inl e
                         | Inr (d4, s9) \<Rightarrow>
                             Inr (s9\<lparr>tests := (tests s9)(''user_ranking_window'' \<mapsto> d4)\<rparr>))))"

text \<open>The keys of \<^verbatim>\<open>self.results['tests']\<close>, each with the operation name its benchmark
  passes to \<^verbatim>\<open>_calculate_statistics\<close>.\<close>

definition benchmarks :: "(string \<times> string) list" where
  "benchmarks =
     [(''score_update'', ''UPDATE Score''),
      (''top_leaderboard'', ''SELECT TOP 10''),
      (''user_ranking'', ''Calcolo Posizione Utente''),
      (''user_ranking_window'', ''Posizione con WINDOW Function'')]"

text \<open>
  For stating the properties of a run: the number of failed trials among the
  \<open>iterations\<close> trials of an operation, and the durations of the successful ones in the
  order of the trials.
\<close>

definition failed_trials :: "(nat \<Rightarrow> trial) \<Rightarrow> int \<Rightarrow> nat" where
  "failed_trials tr iterations =
     length (filter (\<lambda>i. outcome (tr i) \<noteq> Succeeds) [0 ..< nat iterations])"

definition successful_durations :: "(nat \<Rightarrow> trial) \<Rightarrow> int \<Rightarrow> real list" where
  "successful_durations tr iterations =
     map (\<lambda>i. (end_time (tr i) - start_time (tr i)) * 1000)
       (filter (\<lambda>i. outcome (tr i) = Succeeds) [0 ..< nat iterations])"

definition rollbacks :: "db_call list \<Rightarrow> nat" where
  "rollbacks calls = length (filter (\<lambda>c. c = Rollback) calls)"

definition statements :: "db_call list \<Rightarrow> query list" where
  "statements calls = concat (map (\<lambda>c. case c of Execute q \<Rightarrow> [q] | _ \<Rightarrow> []) calls)"

section \<open>performance\_test.py: the two queries for the rank of a user\<close>

text \<open>
  The two strategies are SQL statements in \<^verbatim>\<open>test_user_ranking_performance\<close> and
  \<^verbatim>\<open>test_user_ranking_with_window_function\<close>. They are embedded with the meaning SQL
  gives them, over a snapshot of the two tables; only the columns the statements read
  are kept.
\<close>

record user_row =
  u_user_id :: int
  u_username :: string
  u_is_active :: bool

record leaderboard_row =
  l_user_id :: int
  l_score :: int
  l_games_played :: int

text \<open>\<^verbatim>\<open>FROM leaderboard l JOIN users u ON l.user_id = u.user_id\<close>\<close>

definition leaderboard_join_users ::
  "leaderboard_row list \<Rightarrow> user_row list \<Rightarrow> (leaderboard_row \<times> user_row) list" where
  "leaderboard_join_users lb us =
     concat (map (\<lambda>l. map (\<lambda>u. (l, u)) (filter (\<lambda>u. l_user_id l = u_user_id u) us)) lb)"

text \<open>\<^verbatim>\<open>... WHERE u.is_active = TRUE\<close>\<close>

definition active_rows ::
  "leaderboard_row list \<Rightarrow> user_row list \<Rightarrow> (leaderboard_row \<times> user_row) list" where
  "active_rows lb us = filter (\<lambda>r. u_is_active (snd r)) (leaderboard_join_users lb us)"

text \<open>
  The counting strategy:
  \<^verbatim>\<open>
  SELECT u.username, l.score,
         (SELECT COUNT(*) + 1
          FROM leaderboard l2 JOIN users u2 ON l2.user_id = u2.user_id
          WHERE u2.is_active = TRUE AND l2.score > l.score) as position
  FROM leaderboard l JOIN users u ON l.user_id = u.user_id
  WHERE l.user_id = %s AND u.is_active = TRUE
  \<close>
\<close>

definition count_position ::
  "leaderboard_row list \<Rightarrow> user_row list \<Rightarrow> leaderboard_row \<times> user_row \<Rightarrow> int" where
  "count_position lb us r =
     int (length (filter (\<lambda>r2. l_score (fst r2) > l_score (fst r)) (active_rows lb us))) + 1"

definition rank_by_count ::
  "leaderboard_row list \<Rightarrow> user_row list \<Rightarrow> int \<Rightarrow> (string \<times> int \<times> int) list" where
  "rank_by_count lb us user_id =
     map (\<lambda>r. (u_username (snd r), l_score (fst r), count_position lb us r))
       (filter (\<lambda>r. l_user_id (fst r) = user_id \<and> u_is_active (snd r))
          (leaderboard_join_users lb us))"

text \<open>
  \<^verbatim>\<open>RANK() OVER (ORDER BY l.score DESC)\<close>: one pass over the rows in the order of the
  window. The rows are numbered from 1; a row whose score equals the score of the row
  before it takes the rank of that row, any other row takes its own number. The pass
  carries the number \<open>i\<close> of the current row and the score and rank of the previous one.
\<close>

fun rank_pass :: "('a \<Rightarrow> int) \<Rightarrow> int \<Rightarrow> (int \<times> int) option \<Rightarrow> 'a list \<Rightarrow> ('a \<times> int) list" where
  "rank_pass f i prev [] = []"
| "rank_pass f i prev (x # xs) =
     (let r = (case prev of
                 None \<Rightarrow> i
               | Some (s, r0) \<Rightarrow> if f x = s then r0 else i)
      in (x, r) # rank_pass f (i + 1) (Some (f x, r)) xs)"

text \<open>
  The window strategy:
  \<^verbatim>\<open>
  WITH ranked_users AS (
      SELECT l.user_id, u.username, l.score,
             RANK() OVER (ORDER BY l.score DESC) as position
      FROM leaderboard l JOIN users u ON l.user_id = u.user_id
      WHERE u.is_active = TRUE)
  SELECT username, score, position FROM ranked_users WHERE user_id = %s
  \<close>
  The order of the window is a stable sort by descending score.
\<close>

definition ranked_users ::
  "leaderboard_row list \<Rightarrow> user_row list \<Rightarrow> ((leaderboard_row \<times> user_row) \<times> int) list" where
  "ranked_users lb us =
     rank_pass (\<lambda>r. l_score (fst r)) 1 None
       (sort_key (\<lambda>r. - l_score (fst r)) (active_rows lb us))"

definition rank_by_window ::
  "leaderboard_row list \<Rightarrow> user_row list \<Rightarrow> int \<Rightarrow> (string \<times> int \<times> int) list" where
  "rank_by_window lb us user_id =
     map (\<lambda>rp. (u_username (snd (fst rp)), l_score (fst (fst rp)), snd rp))
       (filter (\<lambda>rp. l_user_id (fst (fst rp)) = user_id) (ranked_users lb us))"

text \<open>\<^verbatim>\<open>cursor.fetchone()\<close>: the first row of the result, \<open>None\<close> when there is none.\<close>

definition fetchone :: "'a list \<Rightarrow> 'a option" where
  "fetchone rows = (case rows of [] \<Rightarrow> None | r # _ \<Rightarrow> Some r)"

text \<open>
  The population of the example with a tie: four active users with the scores 600, 500,
  500 and 400.
\<close>

definition tie_users :: "user_row list" where
  "tie_users =
     [\<lparr>u_user_id = 1, u_username = ''Player1'', u_is_active = True\<rparr>,
      \<lparr>u_user_id = 2, u_username = ''Player2'', u_is_active = True\<rparr>,
      \<lparr>u_user_id = 3, u_username = ''Player3'', u_is_active = True\<rparr>,
      \<lparr>u_user_id = 4, u_username = ''Player4'', u_is_active = True\<rparr>]"

definition tie_leaderboard :: "leaderboard_row list" where
  "tie_leaderboard =
     [\<lparr>l_user_id = 1, l_score = 500, l_games_played = 10\<rparr>,
      \<lparr>l_user_id = 2, l_score = 600, l_games_played = 20\<rparr>,
      \<lparr>l_user_id = 3, l_score = 400, l_games_played = 30\<rparr>,
      \<lparr>l_user_id = 4, l_score = 500, l_games_played = 40\<rparr>]"

section \<open>Properties\<close>

subsection \<open>Library models\<close>

lemma randint_range:
  assumes "a \<le> b"
  shows "a \<le> randint a b r" and "randint a b r \<le> b"
proof -
  have "0 < nat (b - a + 1)" using assms by simp
  then have "r mod nat (b - a + 1) < nat (b - a + 1)" by (rule mod_less_divisor)
  then have lt: "int (r mod nat (b - a + 1)) < b - a + 1" using assms by linarith
  show "a \<le> randint a b r" by (simp add: randint_def)
  from lt show "randint a b r \<le> b" unfolding randint_def by linarith
qed

lemma randint_onto:
  assumes "a \<le> v" and "v \<le> b"
  shows "randint a b (nat (v - a)) = v"
  using assms by (simp add: randint_def)

subsection \<open>Rows of the leaderboard\<close>

lemma length_leaderboard_rows: "length (leaderboard_rows rng p i scores) = length scores"
  by (induction scores arbitrary: p i) (simp_all add: Let_def)

lemma nth_leaderboard_rows:
  "k < length scores \<Longrightarrow>
     leaderboard_rows rng p i scores ! k =
       (int (i + k) + 1, scores ! k, randint 1 100 (rng (p + k)))"
proof (induction scores arbitrary: p i k)
  case Nil
  then show ?case by simp
next
  case (Cons s rest)
  show ?case
  proof (cases k)
    case 0
    then show ?thesis by (simp add: Let_def)
  next
    case (Suc j)
    with Cons.prems have "j < length rest" by simp
    from Cons.IH [OF this, of "Suc p" "Suc i"] Suc show ?thesis
      by (simp add: Let_def)
  qed
qed

text \<open>
  C10. The rows built by \<^verbatim>\<open>insert_leaderboard_batch\<close> before insertion are as many as the
  scores; the row at 0-based position \<open>k\<close> carries user id \<open>k + 1\<close> and the \<open>k\<close>-th score,
  so the association of scores with identities is positional and counts from 1; its
  play count lies in \<open>[1, 100]\<close>.
\<close>

theorem leaderboard_data_positional:
  "length (leaderboard_data rng scores) = length scores \<and>
   (\<forall>k < length scores.
      fst (leaderboard_data rng scores ! k) = int k + 1 \<and>
      fst (snd (leaderboard_data rng scores ! k)) = scores ! k \<and>
      1 \<le> snd (snd (leaderboard_data rng scores ! k)) \<and>
      snd (snd (leaderboard_data rng scores ! k)) \<le> 100)"
proof -
  have "1 \<le> randint 1 100 r \<and> randint 1 100 r \<le> 100" for r
    using randint_range [of 1 100 r] by simp
  then show ?thesis
    by (simp add: leaderboard_data_def length_leaderboard_rows nth_leaderboard_rows)
qed

theorem leaderboard_data_positional_witness:
  "leaderboard_data (\<lambda>i. 250 + i) [700, 0, 1312] = [(1, 700, 51), (2, 0, 52), (3, 1312, 53)] \<and>
   (1::nat) < length [700, 0, 1312 :: int] \<and>
   fst (leaderboard_data (\<lambda>i. 250 + i) [700, 0, 1312] ! 1) = 2 \<and>
   fst (snd (leaderboard_data (\<lambda>i. 250 + i) [700, 0, 1312] ! 1)) = 0 \<and>
   1 \<le> snd (snd (leaderboard_data (\<lambda>i. 250 + i) [700, 0, 1312] ! 1)) \<and>
   snd (snd (leaderboard_data (\<lambda>i. 250 + i) [700, 0, 1312] ! 1)) \<le> 100"
proof -
  have rows: "leaderboard_data (\<lambda>i. 250 + i) [700, 0, 1312]
      = [(1, 700, 51), (2, 0, 52), (3, 1312, 53)]"
    by (simp add: leaderboard_data_def randint_def Let_def)
  have k: "(1::nat) < length [700, 0, 1312 :: int]" by simp
  from leaderboard_data_positional [of "\<lambda>i. 250 + i" "[700, 0, 1312]"] k rows
  show ?thesis by simp
qed

subsection \<open>The range of user ids of a benchmark\<close>

lemma randint_bij:
  assumes "a \<le> b"
  shows "bij_betw (randint a b) {0 ..< nat (b - a + 1)} {a .. b}"
proof (rule bij_betw_byWitness [where f' = "\<lambda>v. nat (v - a)"])
  show "\<forall>r \<in> {0 ..< nat (b - a + 1)}. nat (randint a b r - a) = r"
    by (simp add: randint_def)
  show "\<forall>v \<in> {a .. b}. randint a b (nat (v - a)) = v"
    by (simp add: randint_onto)
  show "randint a b ` {0 ..< nat (b - a + 1)} \<subseteq> {a .. b}"
    using randint_range [OF assms] by auto
  show "(\<lambda>v. nat (v - a)) ` {a .. b} \<subseteq> {0 ..< nat (b - a + 1)}"
    by auto
qed

text \<open>
  C7, as the claim states it, fails: read as an upper bound \<open>min(max_id, sample_bound)\<close>
  that is raised to \<open>min_id\<close> when it falls below it, the interval for the bounds
  \<open>min_id = 5\<close>, \<open>max_id = 10\<close> and \<open>sample_bound = 3\<close> would be \<open>[5, 5]\<close>. The code uses
  the full range \<open>[5, 10]\<close> there, and the raw draw \<open>4\<close> gives the id \<open>9\<close>.
\<close>

theorem user_id_range_counterexample:
  "user_id_range (Some (Some 5, Some 10)) 3 = Inr (5, 10) \<and>
   draw_user_id (Some (Some 5, Some 10)) 3 4 = Inr 9 \<and>
   \<not> (9::int) \<le> max 5 (min 10 3)"
  by (simp add: user_id_range_def draw_user_id_def max_test_user_of_def randint_def)

text \<open>
  C7, amended. When the population bounds \<open>min_id \<le> max_id\<close> exist, the id of a trial is
  drawn from \<open>[min_id, hi]\<close>, where \<open>hi\<close> is \<open>min(max_id, sample_bound)\<close> if that is at
  least \<open>min_id\<close> and the full bound \<open>max_id\<close> otherwise. The interval is non-empty and
  contained in \<open>[min_id, max_id]\<close>; every draw lies in it, and over one period of raw
  draws every id of the interval is drawn exactly once (the uniform choice of
  \<^verbatim>\<open>random.randint\<close>).
\<close>

theorem user_id_range_full_range_fallback:
  assumes "min_id \<le> max_id"
  shows "user_id_range (Some (Some min_id, Some max_id)) sample_bound =
           Inr (min_id, if min_id \<le> min max_id sample_bound
                        then min max_id sample_bound else max_id) \<and>
         min_id \<le> max_test_user_of min_id max_id sample_bound \<and>
         max_test_user_of min_id max_id sample_bound \<le> max_id \<and>
         draw_user_id (Some (Some min_id, Some max_id)) sample_bound r =
           Inr (randint min_id (max_test_user_of min_id max_id sample_bound) r) \<and>
         randint min_id (max_test_user_of min_id max_id sample_bound) r
           \<in> {min_id .. max_test_user_of min_id max_id sample_bound} \<and>
         bij_betw (randint min_id (max_test_user_of min_id max_id sample_bound))
           {0 ..< nat (max_test_user_of min_id max_id sample_bound - min_id + 1)}
           {min_id .. max_test_user_of min_id max_id sample_bound}"
proof -
  let ?hi = "max_test_user_of min_id max_id sample_bound"
  have hi: "?hi = (if min_id \<le> min max_id sample_bound
                   then min max_id sample_bound else max_id)"
    by (auto simp: max_test_user_of_def Let_def)
  have lo: "min_id \<le> ?hi" and up: "?hi \<le> max_id"
    using assms by (auto simp: hi)
  have rg: "user_id_range (Some (Some min_id, Some max_id)) sample_bound = Inr (min_id, ?hi)"
    using lo by (simp add: user_id_range_def Let_def)
  have dr: "draw_user_id (Some (Some min_id, Some max_id)) sample_bound r =
      Inr (randint min_id ?hi r)"
    by (simp add: draw_user_id_def rg)
  have mem: "randint min_id ?hi r \<in> {min_id .. ?hi}"
    using randint_range [OF lo, of r] by simp
  from rg hi lo up dr mem randint_bij [OF lo] show ?thesis
    by presburger
qed

theorem user_id_range_full_range_fallback_witness:
  "(5::int) \<le> 10 \<and>
   user_id_range (Some (Some 5, Some 10)) 7 = Inr (5, 7) \<and>
   user_id_range (Some (Some 5, Some 10)) 3 = Inr (5, 10) \<and>
   draw_user_id (Some (Some 5, Some 10)) 7 4 = Inr 6 \<and>
   draw_user_id (Some (Some 5, Some 10)) 3 4 = Inr 9"
proof -
  have h: "(5::int) \<le> 10" by simp
  have a: "randint 5 7 4 = 6" and b: "randint 5 10 4 = 9"
    by (simp_all add: randint_def)
  from user_id_range_full_range_fallback [OF h, of 7 4]
       user_id_range_full_range_fallback [OF h, of 3 4] a b
  show ?thesis by (simp add: max_test_user_of_def)
qed

subsection \<open>Order of the statistics\<close>

lemma py_min_Min: "xs \<noteq> [] \<Longrightarrow> py_min xs = Min (set xs)"
  by (cases xs) (simp_all add: py_min_def Min.set_eq_fold del: set_simps)

lemma py_max_Max: "xs \<noteq> [] \<Longrightarrow> py_max xs = Max (set xs)"
  by (cases xs) (simp_all add: py_max_def Max.set_eq_fold del: set_simps)

lemma py_min_le: "x \<in> set xs \<Longrightarrow> py_min xs \<le> x"
  using py_min_Min [of xs] by (cases "xs = []") simp_all

lemma py_max_ge: "x \<in> set xs \<Longrightarrow> x \<le> py_max xs"
  using py_max_Max [of xs] by (cases "xs = []") simp_all

lemma sort_nth_bounds:
  assumes "i < length xs"
  shows "py_min xs \<le> sort xs ! i" and "sort xs ! i \<le> py_max xs"
proof -
  have "sort xs ! i \<in> set (sort xs)" using assms by (simp del: set_sort)
  then have "sort xs ! i \<in> set xs" by simp
  then show "py_min xs \<le> sort xs ! i" and "sort xs ! i \<le> py_max xs"
    by (rule py_min_le, rule py_max_ge)
qed

lemma sum_list_bounds:
  fixes xs :: "real list"
  assumes "\<And>x. x \<in> set xs \<Longrightarrow> a \<le> x" and "\<And>x. x \<in> set xs \<Longrightarrow> x \<le> b"
  shows "a * real (length xs) \<le> sum_list xs" and "sum_list xs \<le> b * real (length xs)"
  using assms by (induction xs) (auto simp: algebra_simps intro: add_mono)

lemma mean_bounds:
  assumes "xs \<noteq> []"
  shows "py_min xs \<le> statistics_mean xs" and "statistics_mean xs \<le> py_max xs"
proof -
  have n: "0 < real (length xs)" using assms by simp
  from sum_list_bounds [of xs "py_min xs" "py_max xs"]
  have "py_min xs * real (length xs) \<le> sum_list xs" "sum_list xs \<le> py_max xs * real (length xs)"
    by (simp_all add: py_min_le py_max_ge)
  with n show "py_min xs \<le> statistics_mean xs" and "statistics_mean xs \<le> py_max xs"
    by (simp_all add: statistics_mean_def pos_le_divide_eq pos_divide_le_eq)
qed

lemma median_bounds:
  assumes "xs \<noteq> []"
  shows "py_min xs \<le> statistics_median xs" and "statistics_median xs \<le> py_max xs"
proof -
  let ?n = "length xs"
  have n: "0 < ?n" using assms by simp
  have a: "?n div 2 < ?n" using n by simp
  have b: "?n div 2 - 1 < ?n" using n by linarith
  note A = sort_nth_bounds [OF a] and B = sort_nth_bounds [OF b]
  show "py_min xs \<le> statistics_median xs"
    using A(1) B(1) by (simp add: statistics_median_def Let_def)
  show "statistics_median xs \<le> py_max xs"
    using A(2) B(2) by (simp add: statistics_median_def Let_def)
qed

lemma lerp_eq: "lerp a b t = a + (b - a) * t"
  by (simp add: lerp_def algebra_simps)


lemma np_percentile_eq:
  "np_percentile xs q =
     (let arr = sort xs; n = length xs; v = real (n - 1) * (q / 100); k = nat \<lfloor>v\<rfloor>
      in if v \<ge> real (n - 1) then arr ! (n - 1)
         else arr ! k + (arr ! (k + 1) - arr ! k) * (v - real k))"
  by (simp only: np_percentile_def Let_def lerp_eq length_sort diff_self mult_zero_left add_0_right)

lemma interp_bounds:
  fixes arr :: "real list"
  assumes "sorted arr" and "0 \<le> v" and "v < real (length arr - 1)"
  defines "k \<equiv> nat \<lfloor>v\<rfloor>"
  shows "arr ! k \<le> arr ! k + (arr ! (k + 1) - arr ! k) * (v - real k)"
    and "arr ! k + (arr ! (k + 1) - arr ! k) * (v - real k) \<le> arr ! (k + 1)"
    and "k + 1 < length arr"
proof -
  have k0: "real k \<le> v" and k1: "v < real k + 1"
    using assms(2) unfolding k_def by linarith+
  from k0 assms(3) have "real k < real (length arr - 1)" by linarith
  then show kl: "k + 1 < length arr" by linarith
  then have le: "arr ! k \<le> arr ! (k + 1)"
    using assms(1) by (simp add: sorted_nth_mono)
  have g0: "0 \<le> v - real k" and g1: "v - real k \<le> 1" using k0 k1 by simp_all
  from le g0 show "arr ! k \<le> arr ! k + (arr ! (k + 1) - arr ! k) * (v - real k)"
    by simp
  have "(arr ! (k + 1) - arr ! k) * (v - real k) \<le> (arr ! (k + 1) - arr ! k) * 1"
    using le g1 by (intro mult_left_mono) simp_all
  then show "arr ! k + (arr ! (k + 1) - arr ! k) * (v - real k) \<le> arr ! (k + 1)"
    by simp
qed

lemma interp_mono:
  fixes arr :: "real list"
  assumes s: "sorted arr" and v1: "0 \<le> v1" and v12: "v1 \<le> v2" and v2: "v2 < real (length arr - 1)"
  shows "arr ! nat \<lfloor>v1\<rfloor> + (arr ! (nat \<lfloor>v1\<rfloor> + 1) - arr ! nat \<lfloor>v1\<rfloor>) * (v1 - real (nat \<lfloor>v1\<rfloor>))
       \<le> arr ! nat \<lfloor>v2\<rfloor> + (arr ! (nat \<lfloor>v2\<rfloor> + 1) - arr ! nat \<lfloor>v2\<rfloor>) * (v2 - real (nat \<lfloor>v2\<rfloor>))"
    (is "?L \<le> ?R")
proof -
  let ?k1 = "nat \<lfloor>v1\<rfloor>" and ?k2 = "nat \<lfloor>v2\<rfloor>"
  have v1': "v1 < real (length arr - 1)" and v2': "0 \<le> v2" using v1 v12 v2 by simp_all
  note B1 = interp_bounds [OF s v1 v1'] and B2 = interp_bounds [OF s v2' v2]
  have k12: "?k1 \<le> ?k2" using v12 by (simp add: floor_mono nat_mono)
  show ?thesis
  proof (cases "?k1 = ?k2")
    case True
    have le: "arr ! ?k2 \<le> arr ! (?k2 + 1)" using s B2(3) by (simp add: sorted_nth_mono)
    have "(arr ! (?k2 + 1) - arr ! ?k2) * (v1 - real ?k2) \<le> (arr ! (?k2 + 1) - arr ! ?k2) * (v2 - real ?k2)"
      using le v12 by (intro mult_left_mono) simp_all
    with True show ?thesis by simp
  next
    case False
    with k12 have "?k1 + 1 \<le> ?k2" by simp
    moreover have "?k2 < length arr" using B2(3) by simp
    ultimately have "arr ! (?k1 + 1) \<le> arr ! ?k2" using s by (simp add: sorted_nth_mono)
    with B1(2) B2(1) show ?thesis by linarith
  qed
qed

lemma np_percentile_mono:
  assumes "xs \<noteq> []" and "0 \<le> q1" and "q1 \<le> q2"
  shows "np_percentile xs q1 \<le> np_percentile xs q2"
proof -
  let ?arr = "sort xs" and ?n = "length xs"
  let ?v1 = "real (?n - 1) * (q1 / 100)" and ?v2 = "real (?n - 1) * (q2 / 100)"
  have s: "sorted ?arr" by simp
  have len: "length ?arr = ?n" by simp
  have v1: "0 \<le> ?v1" using assms(2) by simp
  have v12: "?v1 \<le> ?v2" using assms(3) by (simp add: mult_left_mono divide_right_mono)
  have last: "?n - 1 < length ?arr" using assms(1) by simp
  show ?thesis
  proof (cases "?v2 \<ge> real (?n - 1)")
    case hi2: True
    show ?thesis
    proof (cases "?v1 \<ge> real (?n - 1)")
      case True
      with hi2 show ?thesis by (simp only: np_percentile_eq Let_def if_True order_refl)
    next
      case False
      then have lt: "?v1 < real (length ?arr - 1)" by (simp only: length_sort not_le)
      note B = interp_bounds [OF s v1 lt]
      have "?arr ! (nat \<lfloor>?v1\<rfloor> + 1) \<le> ?arr ! (?n - 1)"
        using s B(3) last by (intro sorted_nth_mono) simp_all
      have "np_percentile xs q2 = ?arr ! (?n - 1)"
        using hi2 by (simp only: np_percentile_eq Let_def if_True)
      moreover have "np_percentile xs q1 = ?arr ! nat \<lfloor>?v1\<rfloor> +
          (?arr ! (nat \<lfloor>?v1\<rfloor> + 1) - ?arr ! nat \<lfloor>?v1\<rfloor>) * (?v1 - real (nat \<lfloor>?v1\<rfloor>))"
        using False by (simp only: np_percentile_eq Let_def if_False)
      ultimately show ?thesis using B(2) \<open>?arr ! (nat \<lfloor>?v1\<rfloor> + 1) \<le> ?arr ! (?n - 1)\<close>
        by linarith
    qed
  next
    case False
    then have lt2: "?v2 < real (length ?arr - 1)" by (simp only: length_sort not_le)
    have f1: "\<not> ?v1 \<ge> real (?n - 1)" using False v12 by linarith
    from interp_mono [OF s v1 v12 lt2] show ?thesis
      using False f1 by (simp only: np_percentile_eq Let_def if_False)
  qed
qed

lemma np_percentile_bounds:
  assumes "xs \<noteq> []" and "0 \<le> q"
  shows "py_min xs \<le> np_percentile xs q" and "np_percentile xs q \<le> py_max xs"
proof -
  let ?arr = "sort xs" and ?n = "length xs"
  let ?v = "real (?n - 1) * (q / 100)"
  have s: "sorted ?arr" by simp
  have v: "0 \<le> ?v" using assms(2) by simp
  have last: "?n - 1 < length xs" using assms(1) by simp
  have "py_min xs \<le> np_percentile xs q \<and> np_percentile xs q \<le> py_max xs"
  proof (cases "?v \<ge> real (?n - 1)")
    case True
    with sort_nth_bounds [OF last] show ?thesis by (simp only: np_percentile_eq Let_def if_True simp_thms)
  next
    case False
    then have lt: "?v < real (length ?arr - 1)" by (simp only: length_sort not_le)
    note B = interp_bounds [OF s v lt]
    have k1: "nat \<lfloor>?v\<rfloor> + 1 < length xs"
      using B(3) by (simp only: length_sort)
    then have k: "nat \<lfloor>?v\<rfloor> < length xs" by linarith
    have "np_percentile xs q = ?arr ! nat \<lfloor>?v\<rfloor> +
        (?arr ! (nat \<lfloor>?v\<rfloor> + 1) - ?arr ! nat \<lfloor>?v\<rfloor>) * (?v - real (nat \<lfloor>?v\<rfloor>))"
      using False by (simp only: np_percentile_eq Let_def if_False)
    with sort_nth_bounds(1) [OF k] sort_nth_bounds(2) [OF k1] B(1,2)
    show ?thesis by linarith
  qed
  then show "py_min xs \<le> np_percentile xs q" and "np_percentile xs q \<le> py_max xs"
    by simp_all
qed


lemma singleton_statistics:
  "py_min [x] = x" "py_max [x] = x" "statistics_mean [x] = x" "statistics_median [x] = x"
  "np_percentile [x] q = x"
  by (simp_all add: py_min_def py_max_def statistics_mean_def statistics_median_def
      np_percentile_eq Let_def)

text \<open>
  C6. For every non-empty list of durations \<^verbatim>\<open>_calculate_statistics\<close> returns the
  statistics, and they satisfy \<open>min \<le> median \<le> max\<close>, \<open>min \<le> mean \<le> max\<close> and
  \<open>p95 \<le> p99 \<le> max\<close>; for a single duration the standard deviation is \<open>0\<close> and
  minimum, maximum, mean, median, \<open>p95\<close> and \<open>p99\<close> coincide. Durations are exact reals.
\<close>

theorem calculate_statistics_order:
  assumes "times_list \<noteq> []"
  shows "\<exists>st. calculate_statistics times_list operation_name = Stats st \<and>
           min_ms st \<le> median_ms st \<and> median_ms st \<le> max_ms st \<and>
           min_ms st \<le> mean_ms st \<and> mean_ms st \<le> max_ms st \<and>
           p95_ms st \<le> p99_ms st \<and> p99_ms st \<le> max_ms st \<and>
           (length times_list = 1 \<longrightarrow>
              stdev_ms st = 0 \<and> min_ms st = max_ms st \<and> max_ms st = mean_ms st \<and>
              mean_ms st = median_ms st \<and> median_ms st = p95_ms st \<and> p95_ms st = p99_ms st)"
proof -
  have single: "py_min times_list = py_max times_list \<and>
      py_max times_list = statistics_mean times_list \<and>
      statistics_mean times_list = statistics_median times_list \<and>
      statistics_median times_list = np_percentile times_list 95 \<and>
      np_percentile times_list 95 = np_percentile times_list 99"
    if "length times_list = 1"
  proof -
    from that obtain x where "times_list = [x]"
      by (cases times_list) simp_all
    then show ?thesis by (simp only: singleton_statistics)
  qed
  have p: "np_percentile times_list 95 \<le> np_percentile times_list 99"
    by (rule np_percentile_mono [OF assms]) simp_all
  have q: "np_percentile times_list 99 \<le> py_max times_list"
    by (rule np_percentile_bounds [OF assms]) simp
  from assms median_bounds [OF assms] mean_bounds [OF assms] p q single
  show ?thesis
    by (simp add: calculate_statistics_def Let_def)
qed

theorem calculate_statistics_order_witness:
  "[3, 1, 2 :: real] \<noteq> [] \<and>
   (\<exists>st. calculate_statistics [3, 1, 2] ''UPDATE Score'' = Stats st \<and>
      min_ms st = 1 \<and> median_ms st = 2 \<and> mean_ms st = 2 \<and> max_ms st = 3 \<and>
      p95_ms st = 29 / 10 \<and> p99_ms st = 149 / 50 \<and>
      min_ms st \<le> median_ms st \<and> p95_ms st \<le> p99_ms st \<and> p99_ms st \<le> max_ms st) \<and>
   (\<exists>st. calculate_statistics [7 / 2] ''UPDATE Score'' = Stats st \<and> length [7 / 2 :: real] = 1 \<and>
      stdev_ms st = 0 \<and> min_ms st = 7 / 2 \<and> p99_ms st = 7 / 2)"
proof -
  have h: "[3, 1, 2 :: real] \<noteq> []" and h1: "[7 / 2 :: real] \<noteq> []" by simp_all
  have v: "py_min [3, 1, 2] = 1" "py_max [3, 1, 2] = 3" "statistics_mean [3, 1, 2] = 2"
    "statistics_median [3, 1, 2] = 2" "np_percentile [3, 1, 2] 95 = 29 / 10"
    "np_percentile [3, 1, 2] 99 = 149 / 50"
    by (simp_all add: py_min_def py_max_def statistics_mean_def statistics_median_def
      np_percentile_def lerp_def Let_def)
  from calculate_statistics_order [OF h, of "''UPDATE Score''"] v
  have a: "\<exists>st. calculate_statistics [3, 1, 2] ''UPDATE Score'' = Stats st \<and>
      min_ms st = 1 \<and> median_ms st = 2 \<and> mean_ms st = 2 \<and> max_ms st = 3 \<and>
      p95_ms st = 29 / 10 \<and> p99_ms st = 149 / 50 \<and>
      min_ms st \<le> median_ms st \<and> p95_ms st \<le> p99_ms st \<and> p99_ms st \<le> max_ms st"
    by (auto simp: calculate_statistics_def Let_def)
  from calculate_statistics_order [OF h1, of "''UPDATE Score''"]
  have b: "\<exists>st. calculate_statistics [7 / 2] ''UPDATE Score'' = Stats st \<and> length [7 / 2 :: real] = 1 \<and>
      stdev_ms st = 0 \<and> min_ms st = 7 / 2 \<and> p99_ms st = 7 / 2"
    by (auto simp: calculate_statistics_def Let_def singleton_statistics)
  from h a b show ?thesis by blast
qed

subsection \<open>Generation of user names\<close>

lemma distinct_admit: "distinct usernames \<Longrightarrow> distinct (admit username usernames)"
  by (simp add: admit_def)

lemma length_admit:
  "length (admit username usernames) = length usernames \<or>
   length (admit username usernames) = Suc (length usernames)"
  by (simp add: admit_def)

lemma username_loop_invariant:
  assumes "username_loop rng count max_attempts (usernames, attempts, p) = (usernames', attempts', p')"
    and "distinct usernames" and "attempts \<le> max_attempts" and "int (length usernames) \<le> count"
  shows "distinct usernames' \<and> attempts \<le> attempts' \<and> attempts' \<le> max_attempts \<and>
         int (length usernames') \<le> count \<and>
         (int (length usernames') = count \<or> attempts' = max_attempts)"
  using assms
proof (induction rng count max_attempts "(usernames, attempts, p)"
    arbitrary: usernames attempts p rule: username_loop.induct)
  case (1 rng count max_attempts usernames attempts p)
  show ?case
  proof (cases "int (length usernames) < count \<and> attempts < max_attempts")
    case True
    let ?c = "candidate rng (attempts + 1) usernames p"
    have step: "username_loop rng count max_attempts (admit (fst ?c) usernames, attempts + 1, snd ?c)
        = (usernames', attempts', p')"
      using "1.prems"(1) True by (simp add: username_loop.simps [of _ _ _ usernames])
    have d: "distinct (admit (fst ?c) usernames)"
      using "1.prems"(2) by (rule distinct_admit)
    have a: "attempts + 1 \<le> max_attempts" using True by simp
    have l: "int (length (admit (fst ?c) usernames)) \<le> count"
      using True length_admit [of "fst ?c" usernames] by auto
    from "1.hyps" [OF True step d a l] show ?thesis by simp
  next
    case False
    then have "username_loop rng count max_attempts (usernames, attempts, p) = (usernames, attempts, p)"
      by (subst username_loop.simps) (simp only: if_False)
    with "1.prems" False show ?thesis by auto
  qed
qed

text \<open>
  C4. For every \<open>count \<ge> 1\<close> \<^verbatim>\<open>generate_usernames\<close> either returns exactly \<open>count\<close>
  pairwise distinct names, or raises its \<^verbatim>\<open>ValueError\<close> with the loop left after exactly
  \<open>count * 10\<close> attempts; it never returns fewer names or a repeated name. In both
  cases the loop makes at most \<open>count * 10\<close> attempts, one candidate each. The loop is a
  total function: its termination is proved with the measure \<open>max_attempts - attempts\<close>.
\<close>

theorem generate_usernames_distinct_or_exhausted:
  assumes "1 \<le> count"
  shows "((\<exists>names. generate_usernames rng count = Inr names \<and>
             int (length names) = count \<and> distinct names) \<or>
          (\<exists>msg. generate_usernames rng count = Inl (ValueError msg) \<and>
             fst (snd (username_loop rng count (count * 10) ([], 0, 0))) = count * 10)) \<and>
         fst (snd (username_loop rng count (count * 10) ([], 0, 0))) \<le> count * 10"
proof -
  obtain us att p where r: "username_loop rng count (count * 10) ([], 0, 0) = (us, att, p)"
    by (cases "username_loop rng count (count * 10) ([], 0, 0)")
  from assms have "distinct ([] :: string list)" "0 \<le> count * 10" "int (length ([] :: string list)) \<le> count"
    by simp_all
  from username_loop_invariant [OF r this]
  have inv: "distinct us" "att \<le> count * 10" "int (length us) \<le> count"
    "int (length us) = count \<or> att = count * 10"
    by simp_all
  show ?thesis
  proof (cases "int (length us) < count")
    case True
    with inv(4) have "att = count * 10" by simp
    with True r inv show ?thesis by (simp add: generate_usernames_def Let_def)
  next
    case False
    with inv(3) have "int (length us) = count" by simp
    with r inv show ?thesis by (simp add: generate_usernames_def Let_def)
  qed
qed

theorem generate_usernames_distinct_or_exhausted_witness:
  "(1::int) \<le> 4 \<and>
   generate_usernames (\<lambda>i. 0) 4 = Inr [''Player20231'', ''User2_100'', ''Player1'', ''User4_100''] \<and>
   username_loop (\<lambda>i. 0) 4 (4 * 10) ([], 0, 0) =
     ([''Player20231'', ''User2_100'', ''Player1'', ''User4_100''], 5, 10) \<and>
   distinct [''Player20231'', ''User2_100'', ''Player1'', ''User4_100'']"
proof -
  have h: "(1::int) \<le> 4" by simp
  have l: "username_loop (\<lambda>i. 0) 4 (4 * 10) ([], 0, 0) =
     ([''Player20231'', ''User2_100'', ''Player1'', ''User4_100''], 5, 10)"
    by (simp add: username_loop.simps candidate_def admit_def
      choice_def prefixes_def suffixes_def randint_def str_of_int_def str_of_nat.simps)
  have g: "generate_usernames (\<lambda>i. 0) 4 =
      Inr [''Player20231'', ''User2_100'', ''Player1'', ''User4_100'']"
    using l by (simp add: generate_usernames_def Let_def)
  from generate_usernames_distinct_or_exhausted [OF h, of "\<lambda>i. 0"] h l g
  show ?thesis by simp
qed

subsection \<open>Generation of scores\<close>

lemma finish_scores_nonempty:
  "arr \<noteq> [] \<Longrightarrow> finish_scores arr = Inr (map (\<lambda>x. max 0 (astype_int x)) arr)"
  by (simp add: finish_scores_def Let_def)

lemma np_random_draw_length:
  "0 \<le> count \<Longrightarrow> np_random_draw samples count = Inr (map samples [0 ..< nat count])"
  by (simp add: np_random_draw_def)

lemma set_sample_from:
  "k \<le> length pool \<Longrightarrow> set (sample_from rng p pool k) \<subseteq> set pool"
proof (induction k arbitrary: p pool)
  case 0
  then show ?case by simp
next
  case (Suc k)
  let ?j = "rng p mod length pool"
  let ?rest = "take ?j pool @ drop (Suc ?j) pool"
  from Suc.prems have ne: "0 < length pool" by linarith
  then have j: "?j < length pool" by (rule mod_less_divisor)
  then have len: "length ?rest = length pool - 1" by simp
  with Suc.prems have "k \<le> length ?rest" by simp
  from Suc.IH [OF this] have "set (sample_from rng (Suc p) ?rest k) \<subseteq> set ?rest" .
  moreover have "set ?rest \<subseteq> set pool"
    using set_take_subset [of ?j pool] set_drop_subset [of "Suc ?j" pool] by auto
  moreover have "pool ! ?j \<in> set pool" using j by simp
  ultimately show ?case by (auto simp: Let_def)
qed

lemma length_sample_from: "length (sample_from rng p pool k) = k"
  by (induction k arbitrary: p pool) (simp_all add: Let_def)

lemma add_pro_bonus_length:
  "\<forall>idx \<in> set pro_indices. idx < length base_scores \<Longrightarrow>
   \<exists>arr. add_pro_bonus rng p base_scores pro_indices = Inr arr \<and> length arr = length base_scores"
proof (induction pro_indices arbitrary: p base_scores)
  case Nil
  then show ?case by simp
next
  case (Cons idx rest)
  let ?upd = "base_scores[idx := base_scores ! idx + real_of_int (randint 5000 15000 (rng p))]"
  from Cons.prems have "\<forall>i \<in> set rest. i < length ?upd" by simp
  from Cons.IH [OF this, of "Suc p"] Cons.prems show ?case by simp
qed

lemma sampled_scores_length:
  assumes "1 \<le> count"
    and "distribution \<in> {''normal'', ''skewed'', ''uniform'', ''exponential''}"
  shows "\<exists>arr. sampled_scores samples rng count distribution = Inr arr \<and>
           length arr = nat count \<and>
           (distribution \<noteq> ''skewed'' \<longrightarrow> arr = map samples [0 ..< nat count])"
proof (cases "distribution = ''skewed''")
  case False
  with assms show ?thesis
    by (auto simp: sampled_scores_def np_random_draw_def)
next
  case True
  define k where "k = max 1 (count div 100)"
  have "count div 100 \<le> count" using assms(1) by simp
  then have k: "0 \<le> k" "k \<le> count" using assms(1) by (simp_all add: k_def)
  then have s: "random_sample rng 0 [0 ..< nat count] k =
      Inr (sample_from rng 0 [0 ..< nat count] (nat k))"
    by (simp add: random_sample_def)
  have "nat k \<le> length [0 ..< nat count]" using k by simp
  from set_sample_from [OF this, of rng 0]
  have "\<forall>idx \<in> set (sample_from rng 0 [0 ..< nat count] (nat k)).
      idx < length (map samples [0 ..< nat count])"
    by auto
  from add_pro_bonus_length [OF this, of rng "nat k"]
  obtain arr where "add_pro_bonus rng (nat k) (map samples [0 ..< nat count])
      (sample_from rng 0 [0 ..< nat count] (nat k)) = Inr arr" "length arr = nat count"
    by auto
  with True s assms(1) show ?thesis
    by (simp add: sampled_scores_def np_random_draw_def Let_def k_def [symmetric])
qed

lemma clamp_truncate: "max 0 (astype_int x) = (if x < 0 then 0 else \<lfloor>x\<rfloor>)"
proof (cases "x < 0")
  case True
  then have "\<lceil>x\<rceil> \<le> 0" by (simp add: ceiling_le_iff)
  with True show ?thesis by (simp add: astype_int_def)
next
  case False
  then have "0 \<le> \<lfloor>x\<rfloor>" by simp
  with False show ?thesis by (simp add: astype_int_def)
qed

text \<open>
  C5. For each of the four supported distributions and every \<open>count \<ge> 1\<close>,
  \<^verbatim>\<open>generate_scores\<close> returns exactly \<open>count\<close> integers, none negative: the value
  returned for a sample \<open>x\<close> is \<open>0\<close> when \<open>x\<close> is negative and \<open>x\<close> without its
  fractional part otherwise. For the distributions other than \<^verbatim>\<open>skewed\<close> the samples
  are those drawn; for \<^verbatim>\<open>skewed\<close> they are the drawn samples after the bonus of the
  chosen indices.
\<close>

theorem generate_scores_count_nonneg:
  assumes "1 \<le> count"
    and "distribution \<in> {''normal'', ''skewed'', ''uniform'', ''exponential''}"
  shows "\<exists>arr. sampled_scores samples rng count distribution = Inr arr \<and>
           generate_scores samples rng count distribution =
             Inr (map (\<lambda>x. if x < 0 then 0 else \<lfloor>x\<rfloor>) arr) \<and>
           length (map (\<lambda>x. if x < 0 then 0 else \<lfloor>x\<rfloor>) arr) = nat count \<and>
           (\<forall>s \<in> set (map (\<lambda>x. if x < 0 then 0 else \<lfloor>x\<rfloor>) arr). 0 \<le> s) \<and>
           (distribution \<noteq> ''skewed'' \<longrightarrow> arr = map samples [0 ..< nat count])"
proof -
  from sampled_scores_length [OF assms, of samples rng]
  obtain arr where a: "sampled_scores samples rng count distribution = Inr arr"
    "length arr = nat count" "distribution \<noteq> ''skewed'' \<longrightarrow> arr = map samples [0 ..< nat count]"
    by blast
  from a(2) assms(1) have "arr \<noteq> []" by auto
  then have "generate_scores samples rng count distribution =
      Inr (map (\<lambda>x. if x < 0 then 0 else \<lfloor>x\<rfloor>) arr)"
    using a(1) by (simp add: generate_scores_def finish_scores_nonempty clamp_truncate)
  moreover have "\<forall>s \<in> set (map (\<lambda>x. if x < 0 then 0 else \<lfloor>x\<rfloor>) arr). 0 \<le> s"
    by auto
  ultimately show ?thesis using a by auto
qed

text \<open>
  C3. With \<open>count = 0\<close> the function \<^verbatim>\<open>generate_scores\<close> returns no list: it raises
  \<^verbatim>\<open>ValueError\<close> for each of the four supported distributions. For \<^verbatim>\<open>normal\<close>,
  \<^verbatim>\<open>uniform\<close> and \<^verbatim>\<open>exponential\<close> the empty array reaches \<^verbatim>\<open>np.min\<close> in the
  statistics that are printed; for \<^verbatim>\<open>skewed\<close> one index is sampled out of an empty
  range, since \<^verbatim>\<open>num_pros = max(1, count // 100)\<close> is \<open>1\<close>.
\<close>

theorem generate_scores_zero_raises:
  "generate_scores samples rng 0 ''normal'' =
     Inl (ValueError ''zero-size array to reduction operation minimum which has no identity'') \<and>
   generate_scores samples rng 0 ''skewed'' =
     Inl (ValueError ''Sample larger than population or is negative'') \<and>
   generate_scores samples rng 0 ''uniform'' =
     Inl (ValueError ''zero-size array to reduction operation minimum which has no identity'') \<and>
   generate_scores samples rng 0 ''exponential'' =
     Inl (ValueError ''zero-size array to reduction operation minimum which has no identity'')"
  by (simp add: generate_scores_def sampled_scores_def np_random_draw_def finish_scores_def
      random_sample_def)

theorem generate_scores_count_nonneg_witness:
  "(1::int) \<le> 3 \<and>
   ''normal'' \<in> {''normal'', ''skewed'', ''uniform'', ''exponential''} \<and>
   ''skewed'' \<in> {''normal'', ''skewed'', ''uniform'', ''exponential''} \<and>
   generate_scores (\<lambda>i. real i * (501 / 2) - 300) (\<lambda>i. 2 + i) 3 ''normal'' = Inr [0, 0, 201] \<and>
   generate_scores (\<lambda>i. real i * (501 / 2) - 300) (\<lambda>i. 2 + i) 3 ''skewed'' = Inr [0, 0, 5204]"
proof -
  have h: "(1::int) \<le> 3" by simp
  have d1: "''normal'' \<in> {''normal'', ''skewed'', ''uniform'', ''exponential''}"
    and d2: "''skewed'' \<in> {''normal'', ''skewed'', ''uniform'', ''exponential''}"
    by simp_all
  have n3: "[0 ..< 3] = [0, 1, 2 :: nat]" by (simp add: upt_rec)
  have a: "sampled_scores (\<lambda>i. real i * (501 / 2) - 300) (\<lambda>i. 2 + i) 3 ''normal''
      = Inr [- 300, - (99 / 2), 201]"
    by (simp add: sampled_scores_def np_random_draw_def n3)
  have b: "sampled_scores (\<lambda>i. real i * (501 / 2) - 300) (\<lambda>i. 2 + i) 3 ''skewed''
      = Inr [- 300, - (99 / 2), 5204]"
    by (simp add: sampled_scores_def np_random_draw_def n3 random_sample_def randint_def Let_def)
  from generate_scores_count_nonneg [OF h d1, of "\<lambda>i. real i * (501 / 2) - 300" "\<lambda>i. 2 + i"]
  obtain arr where
    "sampled_scores (\<lambda>i. real i * (501 / 2) - 300) (\<lambda>i. 2 + i) 3 ''normal'' = Inr arr"
    "generate_scores (\<lambda>i. real i * (501 / 2) - 300) (\<lambda>i. 2 + i) 3 ''normal'' =
       Inr (map (\<lambda>x. if x < 0 then 0 else \<lfloor>x\<rfloor>) arr)"
    by blast
  with a
  have "generate_scores (\<lambda>i. real i * (501 / 2) - 300) (\<lambda>i. 2 + i) 3 ''normal'' = Inr [0, 0, 201]"
    by auto
  moreover
  from generate_scores_count_nonneg [OF h d2, of "\<lambda>i. real i * (501 / 2) - 300" "\<lambda>i. 2 + i"]
  obtain arr' where
    "sampled_scores (\<lambda>i. real i * (501 / 2) - 300) (\<lambda>i. 2 + i) 3 ''skewed'' = Inr arr'"
    "generate_scores (\<lambda>i. real i * (501 / 2) - 300) (\<lambda>i. 2 + i) 3 ''skewed'' =
       Inr (map (\<lambda>x. if x < 0 then 0 else \<lfloor>x\<rfloor>) arr')"
    by blast
  with b
  have "generate_scores (\<lambda>i. real i * (501 / 2) - 300) (\<lambda>i. 2 + i) 3 ''skewed'' = Inr [0, 0, 5204]"
    by auto
  ultimately show ?thesis using h d1 d2 by blast
qed

subsection \<open>Timed trials, warm-up and the suite\<close>

lemma fold_trial_step:
  "fold (trial_step q tr) idxs (ts, conn) =
     (ts @ map (\<lambda>i. (end_time (tr i) - start_time (tr i)) * 1000)
             (filter (\<lambda>i. outcome (tr i) = Succeeds) idxs),
      conn @ concat (map (\<lambda>i. attempt_calls (q i) (outcome (tr i))) idxs))"
  by (induction idxs arbitrary: ts conn) (simp_all add: trial_step_def Let_def)

lemma timed_trials_eq:
  "timed_trials q tr iterations (ts, conn) =
     (ts @ successful_durations tr iterations,
      conn @ concat (map (\<lambda>i. attempt_calls (q i) (outcome (tr i))) [0 ..< nat iterations]))"
  by (simp add: timed_trials_def successful_durations_def fold_trial_step)

lemma length_successful_durations:
  "length (successful_durations tr iterations) = nat iterations - failed_trials tr iterations"
proof -
  have "length (filter (\<lambda>i. outcome (tr i) = Succeeds) [0 ..< nat iterations]) +
        length (filter (\<lambda>i. \<not> outcome (tr i) = Succeeds) [0 ..< nat iterations]) =
        length [0 ..< nat iterations]"
    by (rule sum_length_filter_compl)
  then show ?thesis by (simp add: successful_durations_def failed_trials_def)
qed

lemma rollbacks_append: "rollbacks (xs @ ys) = rollbacks xs + rollbacks ys"
  by (simp add: rollbacks_def)

lemma rollbacks_attempts:
  "rollbacks (concat (map (\<lambda>i. attempt_calls (q i) (outcome (tr i))) idxs)) =
     length (filter (\<lambda>i. outcome (tr i) \<noteq> Succeeds) idxs)"
  by (induction idxs)
    (auto simp: rollbacks_def attempt_calls_def split: attempt.splits)

lemma statements_append: "statements (xs @ ys) = statements xs @ statements ys"
  by (simp add: statements_def)

lemma statements_attempts:
  "statements (concat (map (\<lambda>i. attempt_calls (q i) (outcome (tr i))) idxs)) = map q idxs"
  by (induction idxs)
    (auto simp: statements_def attempt_calls_def split: attempt.splits)

lemma tests_warm_up [simp]: "tests (warm_up_queries env rounds s) = tests s"
  by (simp add: warm_up_queries_def)

lemma suite_tests:
  "map_sum id tests (run_complete_test_suite env rng s iterations user_sample) =
     (case user_id_range (bounds_result env) user_sample of
        Inl e \<Rightarrow> Inl e
      | Inr r \<Rightarrow> Inr ((tests s)
          (''score_update'' \<mapsto>
             calculate_statistics (successful_durations (trial_of env ''score_update'') iterations)
               ''UPDATE Score'',
           ''top_leaderboard'' \<mapsto>
             calculate_statistics (successful_durations (trial_of env ''top_leaderboard'') iterations)
               ''SELECT TOP 10'',
           ''user_ranking'' \<mapsto>
             calculate_statistics (successful_durations (trial_of env ''user_ranking'') iterations)
               ''Calcolo Posizione Utente'',
           ''user_ranking_window'' \<mapsto>
             calculate_statistics (successful_durations (trial_of env ''user_ranking_window'') iterations)
               ''Posizione con WINDOW Function'')))"
proof (cases "user_id_range (bounds_result env) user_sample")
  case (Inl e)
  then show ?thesis
    by (simp add: run_complete_test_suite_def test_score_update_performance_def Let_def)
next
  case (Inr r)
  obtain lo hi where r: "r = (lo, hi)" by (cases r)
  have ten: "str_of_int 10 = ''10''"
    by (simp add: str_of_int_def str_of_nat.simps)
  from Inr r show ?thesis
    by (simp add: run_complete_test_suite_def test_score_update_performance_def
        test_top_leaderboard_performance_def test_user_ranking_performance_def
        test_user_ranking_with_window_function_def Let_def timed_trials_eq ten)
qed


lemma fold_append_calls:
  "fold (\<lambda>j c. c @ f j) js conn = conn @ concat (map f js)"
  by (induction js arbitrary: conn) simp_all

lemma connection_warm_up:
  "connection (warm_up_queries env rounds s) =
     connection s @
       concat (map (\<lambda>round. concat (map (\<lambda>j. attempt_calls (WarmUpQuery j)
                                              (warm_up_outcome env round j)) [0 ..< 3]))
                 [0 ..< nat rounds])"
  by (simp add: warm_up_queries_def fold_append_calls)

lemma suite_tests_key:
  assumes "user_id_range (bounds_result env) user_sample = Inr r"
    and "(key, name) \<in> set benchmarks"
  shows "map_sum id (\<lambda>t. tests t key) (run_complete_test_suite env rng s iterations user_sample) =
     Inr (Some (calculate_statistics (successful_durations (trial_of env key) iterations) name))"
proof -
  have "map_sum id (\<lambda>t. tests t key) (run_complete_test_suite env rng s iterations user_sample) =
      map_sum id (\<lambda>m. m key)
        (map_sum id tests (run_complete_test_suite env rng s iterations user_sample))"
    by (cases "run_complete_test_suite env rng s iterations user_sample") simp_all
  also have "\<dots> = Inr (Some (calculate_statistics
      (successful_durations (trial_of env key) iterations) name))"
    using assms unfolding suite_tests by (auto simp: benchmarks_def)
  finally show ?thesis .
qed

text \<open>
  C8, amended. Let the bounds of the user ids exist, and let fewer than \<open>iterations\<close> of
  the \<open>iterations\<close> trials of a benchmarked operation fail, \<open>k\<close> of them. Then the suite
  returns, and the statistics stored for the operation have
  \<open>sample_size = iterations - k\<close>. They are the same in every run in which the bounds
  and the trials of this operation are the same, whatever the trials of the other
  operations, the warm-up, the random draws and the initial state are. For every loop
  of trials, with any number of failures: the list of durations holds the successful
  trials only, in their order; every failed trial adds one rollback; and the statement
  of every iteration is executed, so no failure ends the loop.
\<close>

theorem failed_trials_excluded:
  assumes "user_id_range (bounds_result env) user_sample = Inr r"
    and "(key, name) \<in> set benchmarks"
    and "failed_trials (trial_of env key) iterations < nat iterations"
  shows "(\<exists>s' st. run_complete_test_suite env rng s iterations user_sample = Inr s' \<and>
            tests s' key = Some (Stats st) \<and>
            sample_size st = nat iterations - failed_trials (trial_of env key) iterations \<and>
            (\<forall>env' rng' s0.
               bounds_result env' = bounds_result env \<and> trial_of env' key = trial_of env key \<longrightarrow>
               map_sum id (\<lambda>t. tests t key)
                 (run_complete_test_suite env' rng' s0 iterations user_sample) =
               Inr (Some (Stats st)))) \<and>
         fst (timed_trials q tr iterations ([], conn)) = successful_durations tr iterations \<and>
         length (successful_durations tr iterations) = nat iterations - failed_trials tr iterations \<and>
         rollbacks (snd (timed_trials q tr iterations ([], conn))) =
           rollbacks conn + failed_trials tr iterations \<and>
         statements (snd (timed_trials q tr iterations ([], conn))) =
           statements conn @ map q [0 ..< nat iterations]"
proof -
  let ?ds = "successful_durations (trial_of env key) iterations"
  have len: "length ?ds = nat iterations - failed_trials (trial_of env key) iterations"
    by (rule length_successful_durations)
  with assms(3) have ne: "?ds \<noteq> []" by auto
  then obtain st where st: "calculate_statistics ?ds name = Stats st" "sample_size st = length ?ds"
    by (auto simp: calculate_statistics_def Let_def)
  have key: "map_sum id (\<lambda>t. tests t key)
      (run_complete_test_suite env' rng' s0 iterations user_sample) = Inr (Some (Stats st))"
    if "bounds_result env' = bounds_result env \<and> trial_of env' key = trial_of env key"
    for env' rng' s0
    using suite_tests_key [of env' user_sample r key name rng' s0 iterations] assms(1,2) that st(1)
    by simp
  from key [of env rng s]
  obtain s' where "run_complete_test_suite env rng s iterations user_sample = Inr s'"
    "tests s' key = Some (Stats st)"
    by (cases "run_complete_test_suite env rng s iterations user_sample") auto
  with st(2) len key
  have A: "\<exists>s' st. run_complete_test_suite env rng s iterations user_sample = Inr s' \<and>
            tests s' key = Some (Stats st) \<and>
            sample_size st = nat iterations - failed_trials (trial_of env key) iterations \<and>
            (\<forall>env' rng' s0.
               bounds_result env' = bounds_result env \<and> trial_of env' key = trial_of env key \<longrightarrow>
               map_sum id (\<lambda>t. tests t key)
                 (run_complete_test_suite env' rng' s0 iterations user_sample) =
               Inr (Some (Stats st)))"
    by auto
  have B: "fst (timed_trials q tr iterations ([], conn)) = successful_durations tr iterations"
    by (simp add: timed_trials_eq)
  have C: "rollbacks (snd (timed_trials q tr iterations ([], conn))) =
           rollbacks conn + failed_trials tr iterations"
    by (simp add: timed_trials_eq rollbacks_append rollbacks_attempts failed_trials_def)
  have D: "statements (snd (timed_trials q tr iterations ([], conn))) =
           statements conn @ map q [0 ..< nat iterations]"
    by (simp add: timed_trials_eq statements_append statements_attempts)
  from A B C D length_successful_durations [of tr iterations] show ?thesis by blast
qed

text \<open>
  C2. On the empty list \<^verbatim>\<open>_calculate_statistics\<close> returns the dictionary
  \<^verbatim>\<open>{'error': 'Nessun dato disponibile'}\<close>, which carries none of the statistics: the
  failure is a value, not an exception. When the bounds of the user ids exist and every
  trial of one operation fails, the suite still returns; the entry of that operation is
  the error dictionary, and the entry of every other operation is the statistics of its
  own successful trials.
\<close>

theorem empty_sample_error_dict:
  assumes "user_id_range (bounds_result env) user_sample = Inr r"
    and "(key, name) \<in> set benchmarks"
    and "failed_trials (trial_of env key) iterations = nat iterations"
  shows "calculate_statistics [] operation_name = ErrorDict ''Nessun dato disponibile'' \<and>
         (\<exists>s'. run_complete_test_suite env rng s iterations user_sample = Inr s' \<and>
            tests s' key = Some (ErrorDict ''Nessun dato disponibile'') \<and>
            (\<forall>(key', name') \<in> set benchmarks.
               key' \<noteq> key \<longrightarrow>
               tests s' key' = Some (calculate_statistics
                 (successful_durations (trial_of env key') iterations) name')))"
proof -
  have "length (successful_durations (trial_of env key) iterations) = 0"
    using assms(3) by (simp add: length_successful_durations)
  then have e: "successful_durations (trial_of env key) iterations = []" by simp
  have all: "map_sum id (\<lambda>t. tests t k) (run_complete_test_suite env rng s iterations user_sample) =
      Inr (Some (calculate_statistics (successful_durations (trial_of env k) iterations) n))"
    if "(k, n) \<in> set benchmarks" for k n
    using suite_tests_key [OF assms(1) that] .
  from all [OF assms(2)]
  obtain s' where s': "run_complete_test_suite env rng s iterations user_sample = Inr s'"
    by (cases "run_complete_test_suite env rng s iterations user_sample") auto
  have "tests s' k = Some (calculate_statistics (successful_durations (trial_of env k) iterations) n)"
    if "(k, n) \<in> set benchmarks" for k n
    using all [OF that] s' by simp
  with assms(2) e s' show ?thesis
    by (auto simp: calculate_statistics_def)
qed

text \<open>
  C9. For every number of rounds and whatever its statements do, \<^verbatim>\<open>warm_up_queries\<close>
  changes nothing but the connection, on which it appends its own calls: the stored
  statistics and the random generator are as before, and no list of durations exists
  that it could extend. The statistics of the suite (or the exception that ends it) do
  not depend on the outcomes of the warm-up statements.
\<close>

theorem warm_up_no_timing_sample:
  "tests (warm_up_queries env rounds s) = tests s \<and>
   rng_pos (warm_up_queries env rounds s) = rng_pos s \<and>
   connection (warm_up_queries env rounds s) =
     connection s @
       concat (map (\<lambda>round. concat (map (\<lambda>j. attempt_calls (WarmUpQuery j)
                                              (warm_up_outcome env round j)) [0 ..< 3]))
                 [0 ..< nat rounds]) \<and>
   map_sum id tests
     (run_complete_test_suite (env\<lparr>warm_up_outcome := w\<rparr>) rng s iterations user_sample) =
   map_sum id tests (run_complete_test_suite env rng s iterations user_sample)"
proof -
  have "rng_pos (warm_up_queries env rounds s) = rng_pos s"
    by (simp add: warm_up_queries_def)
  moreover have "map_sum id tests
     (run_complete_test_suite (env\<lparr>warm_up_outcome := w\<rparr>) rng s iterations user_sample) =
     map_sum id tests (run_complete_test_suite env rng s iterations user_sample)"
    by (simp add: suite_tests split: sum.splits)
  ultimately show ?thesis
    using connection_warm_up [of env rounds s] by simp
qed


theorem failed_trials_excluded_witness:
  "user_id_range (bounds_result \<lparr>bounds_result = Some (Some 1, Some 3),
          warm_up_outcome = (\<lambda>round j. if j = 2 then ExecuteFails else Succeeds),
          reset_outcome = Succeeds,
          trial_of = (\<lambda>key i.
            \<lparr>outcome = (if key = ''score_update'' \<and> i = 1 then CommitFails else Succeeds),
             start_time = real i, end_time = real i + 1 / 4\<rparr>)\<rparr>) 1000 = Inr (1, 3) \<and>
   (''score_update'', ''UPDATE Score'') \<in> set benchmarks \<and>
   failed_trials (trial_of \<lparr>bounds_result = Some (Some 1, Some 3),
          warm_up_outcome = (\<lambda>round j. if j = 2 then ExecuteFails else Succeeds),
          reset_outcome = Succeeds,
          trial_of = (\<lambda>key i.
            \<lparr>outcome = (if key = ''score_update'' \<and> i = 1 then CommitFails else Succeeds),
             start_time = real i, end_time = real i + 1 / 4\<rparr>)\<rparr> ''score_update'') 3 = 1 \<and>
   failed_trials (trial_of \<lparr>bounds_result = Some (Some 1, Some 3),
          warm_up_outcome = (\<lambda>round j. if j = 2 then ExecuteFails else Succeeds),
          reset_outcome = Succeeds,
          trial_of = (\<lambda>key i.
            \<lparr>outcome = (if key = ''score_update'' \<and> i = 1 then CommitFails else Succeeds),
             start_time = real i, end_time = real i + 1 / 4\<rparr>)\<rparr> ''score_update'') 3 < nat 3 \<and>
   (\<exists>s' st. run_complete_test_suite \<lparr>bounds_result = Some (Some 1, Some 3),
          warm_up_outcome = (\<lambda>round j. if j = 2 then ExecuteFails else Succeeds),
          reset_outcome = Succeeds,
          trial_of = (\<lambda>key i.
            \<lparr>outcome = (if key = ''score_update'' \<and> i = 1 then CommitFails else Succeeds),
             start_time = real i, end_time = real i + 1 / 4\<rparr>)\<rparr> (\<lambda>i. i)
                 \<lparr>connection = [], rng_pos = 0, tests = Map.empty\<rparr> 3 1000 = Inr s' \<and>
      tests s' ''score_update'' = Some (Stats st) \<and> sample_size st = 2)"
proof -
  let ?env = "\<lparr>bounds_result = Some (Some 1, Some 3),
          warm_up_outcome = (\<lambda>round j. if j = 2 then ExecuteFails else Succeeds),
          reset_outcome = Succeeds,
          trial_of = (\<lambda>key i.
            \<lparr>outcome = (if key = ''score_update'' \<and> i = 1 then CommitFails else Succeeds),
             start_time = real i, end_time = real i + 1 / 4\<rparr>)\<rparr>"
  have n3: "[0 ..< 3] = [0, 1, 2 :: nat]" by (simp add: upt_rec)
  have b: "user_id_range (bounds_result ?env) 1000 = Inr (1, 3)"
    by (simp add: user_id_range_def max_test_user_of_def)
  have k: "(''score_update'', ''UPDATE Score'') \<in> set benchmarks"
    by (simp add: benchmarks_def)
  have f: "failed_trials (trial_of ?env ''score_update'') 3 = 1"
    by (simp add: failed_trials_def n3)
  then have lt: "failed_trials (trial_of ?env ''score_update'') 3 < nat 3" by simp
  from failed_trials_excluded [OF b k lt, of "\<lambda>i. i" "\<lparr>connection = [], rng_pos = 0, tests = Map.empty\<rparr>"]
  have "\<exists>s' st. run_complete_test_suite ?env (\<lambda>i. i) \<lparr>connection = [], rng_pos = 0, tests = Map.empty\<rparr> 3 1000 = Inr s' \<and>
      tests s' ''score_update'' = Some (Stats st) \<and>
      sample_size st = nat 3 - failed_trials (trial_of ?env ''score_update'') 3"
    by blast
  with f have "\<exists>s' st. run_complete_test_suite ?env (\<lambda>i. i) \<lparr>connection = [], rng_pos = 0, tests = Map.empty\<rparr> 3 1000 = Inr s' \<and>
      tests s' ''score_update'' = Some (Stats st) \<and> sample_size st = 2"
    by simp
  with b k f lt show ?thesis by blast
qed

text \<open>
  C8, as the claim states it, fails when all trials fail: with \<open>iterations = 1\<close> and the
  single trial of the score update failing, \<open>k = 1\<close> and the statistics of the operation
  are the dictionary with the single key \<^verbatim>\<open>'error'\<close>; it has no \<open>sample_size\<close> of \<open>0\<close>.
\<close>

theorem failed_trials_all_counterexample:
  "failed_trials (trial_of \<lparr>bounds_result = Some (Some 1, Some 3),
          warm_up_outcome = (\<lambda>round j. Succeeds),
          reset_outcome = Succeeds,
          trial_of = (\<lambda>key i.
            \<lparr>outcome = (if key = ''score_update'' then ExecuteFails else Succeeds),
             start_time = real i, end_time = real i + 1 / 4\<rparr>)\<rparr> ''score_update'') 1 = 1 \<and>
   map_sum id (\<lambda>t. tests t ''score_update'')
     (run_complete_test_suite \<lparr>bounds_result = Some (Some 1, Some 3),
          warm_up_outcome = (\<lambda>round j. Succeeds),
          reset_outcome = Succeeds,
          trial_of = (\<lambda>key i.
            \<lparr>outcome = (if key = ''score_update'' then ExecuteFails else Succeeds),
             start_time = real i, end_time = real i + 1 / 4\<rparr>)\<rparr> (\<lambda>i. i) \<lparr>connection = [], rng_pos = 0, tests = Map.empty\<rparr> 1 1000) =
   Inr (Some (ErrorDict ''Nessun dato disponibile''))"
proof -
  let ?env = "\<lparr>bounds_result = Some (Some 1, Some 3),
          warm_up_outcome = (\<lambda>round j. Succeeds),
          reset_outcome = Succeeds,
          trial_of = (\<lambda>key i.
            \<lparr>outcome = (if key = ''score_update'' then ExecuteFails else Succeeds),
             start_time = real i, end_time = real i + 1 / 4\<rparr>)\<rparr>"
  have b: "user_id_range (bounds_result ?env) 1000 = Inr (1, 3)"
    by (simp add: user_id_range_def max_test_user_of_def)
  have k: "(''score_update'', ''UPDATE Score'') \<in> set benchmarks"
    by (simp add: benchmarks_def)
  have f: "failed_trials (trial_of ?env ''score_update'') 1 = 1"
    by (simp add: failed_trials_def)
  have d: "successful_durations (trial_of ?env ''score_update'') 1 = []"
    by (simp add: successful_durations_def)
  from suite_tests_key [OF b k, of "\<lambda>i. i" "\<lparr>connection = [], rng_pos = 0, tests = Map.empty\<rparr>" 1] d f
  show ?thesis by (simp add: calculate_statistics_def)
qed

theorem empty_sample_error_dict_witness:
  "user_id_range (bounds_result \<lparr>bounds_result = Some (Some 1, Some 3),
          warm_up_outcome = (\<lambda>round j. Succeeds),
          reset_outcome = Succeeds,
          trial_of = (\<lambda>key i.
            \<lparr>outcome = (if key = ''score_update'' then ExecuteFails else Succeeds),
             start_time = real i, end_time = real i + 1 / 4\<rparr>)\<rparr>) 1000 = Inr (1, 3) \<and>
   (''score_update'', ''UPDATE Score'') \<in> set benchmarks \<and>
   failed_trials (trial_of \<lparr>bounds_result = Some (Some 1, Some 3),
          warm_up_outcome = (\<lambda>round j. Succeeds),
          reset_outcome = Succeeds,
          trial_of = (\<lambda>key i.
            \<lparr>outcome = (if key = ''score_update'' then ExecuteFails else Succeeds),
             start_time = real i, end_time = real i + 1 / 4\<rparr>)\<rparr> ''score_update'') 2 = nat 2 \<and>
   (\<exists>s'. run_complete_test_suite \<lparr>bounds_result = Some (Some 1, Some 3),
          warm_up_outcome = (\<lambda>round j. Succeeds),
          reset_outcome = Succeeds,
          trial_of = (\<lambda>key i.
            \<lparr>outcome = (if key = ''score_update'' then ExecuteFails else Succeeds),
             start_time = real i, end_time = real i + 1 / 4\<rparr>)\<rparr> (\<lambda>i. i) \<lparr>connection = [], rng_pos = 0, tests = Map.empty\<rparr> 2 1000 = Inr s' \<and>
      tests s' ''score_update'' = Some (ErrorDict ''Nessun dato disponibile'') \<and>
      tests s' ''top_leaderboard'' = Some (calculate_statistics [250, 250] ''SELECT TOP 10''))"
proof -
  let ?env = "\<lparr>bounds_result = Some (Some 1, Some 3),
          warm_up_outcome = (\<lambda>round j. Succeeds),
          reset_outcome = Succeeds,
          trial_of = (\<lambda>key i.
            \<lparr>outcome = (if key = ''score_update'' then ExecuteFails else Succeeds),
             start_time = real i, end_time = real i + 1 / 4\<rparr>)\<rparr>"
  have n2: "[0 ..< 2] = [0, 1 :: nat]" by (simp add: upt_rec)
  have b: "user_id_range (bounds_result ?env) 1000 = Inr (1, 3)"
    by (simp add: user_id_range_def max_test_user_of_def)
  have k: "(''score_update'', ''UPDATE Score'') \<in> set benchmarks"
    and k': "(''top_leaderboard'', ''SELECT TOP 10'') \<in> set benchmarks"
    by (simp_all add: benchmarks_def)
  have f: "failed_trials (trial_of ?env ''score_update'') 2 = nat 2"
    by (simp add: failed_trials_def n2)
  have d: "successful_durations (trial_of ?env ''top_leaderboard'') 2 = [250, 250]"
    by (simp add: successful_durations_def n2)
  from empty_sample_error_dict [OF b k f, of "''x''" "\<lambda>i. i" "\<lparr>connection = [], rng_pos = 0, tests = Map.empty\<rparr>"]
  obtain s' where s': "run_complete_test_suite ?env (\<lambda>i. i) \<lparr>connection = [], rng_pos = 0, tests = Map.empty\<rparr> 2 1000 = Inr s'"
    "tests s' ''score_update'' = Some (ErrorDict ''Nessun dato disponibile'')"
    "\<forall>(key', name') \<in> set benchmarks. key' \<noteq> ''score_update'' \<longrightarrow>
       tests s' key' = Some (calculate_statistics
         (successful_durations (trial_of ?env key') 2) name')"
    by blast
  from s'(3) k' d
  have "tests s' ''top_leaderboard'' = Some (calculate_statistics [250, 250] ''SELECT TOP 10'')"
    by fastforce
  with s'(1,2) b k f show ?thesis by blast
qed

theorem warm_up_no_timing_sample_witness:
  "tests (warm_up_queries \<lparr>bounds_result = Some (Some 1, Some 3),
          warm_up_outcome = (\<lambda>round j. if j = 2 then ExecuteFails else Succeeds),
          reset_outcome = Succeeds,
          trial_of = (\<lambda>key i.
            \<lparr>outcome = (if key = ''score_update'' \<and> i = 1 then CommitFails else Succeeds),
             start_time = real i, end_time = real i + 1 / 4\<rparr>)\<rparr> 1 \<lparr>connection = [], rng_pos = 0, tests = Map.empty\<rparr>) = Map.empty \<and>
   connection (warm_up_queries \<lparr>bounds_result = Some (Some 1, Some 3),
          warm_up_outcome = (\<lambda>round j. if j = 2 then ExecuteFails else Succeeds),
          reset_outcome = Succeeds,
          trial_of = (\<lambda>key i.
            \<lparr>outcome = (if key = ''score_update'' \<and> i = 1 then CommitFails else Succeeds),
             start_time = real i, end_time = real i + 1 / 4\<rparr>)\<rparr> 1 \<lparr>connection = [], rng_pos = 0, tests = Map.empty\<rparr>) =
     [Execute (WarmUpQuery 0), Commit, Execute (WarmUpQuery 1), Commit,
      Execute (WarmUpQuery 2), Rollback]"
proof -
  have n3: "[0 ..< 3] = [0, 1, 2 :: nat]" by (simp add: upt_rec)
  from warm_up_no_timing_sample [of "\<lparr>bounds_result = Some (Some 1, Some 3),
          warm_up_outcome = (\<lambda>round j. if j = 2 then ExecuteFails else Succeeds),
          reset_outcome = Succeeds,
          trial_of = (\<lambda>key i.
            \<lparr>outcome = (if key = ''score_update'' \<and> i = 1 then CommitFails else Succeeds),
             start_time = real i, end_time = real i + 1 / 4\<rparr>)\<rparr>" 1 "\<lparr>connection = [], rng_pos = 0, tests = Map.empty\<rparr>"]
  show ?thesis by (simp add: n3 attempt_calls_def)
qed

subsection \<open>The rank by counting and by the window function\<close>

lemma sorted_wrt_last_least:
  assumes "sorted_wrt (\<lambda>a b. f a \<ge> (f b :: int)) pre" and "p \<in> set pre"
  shows "f p \<ge> f (last pre)"
proof (cases "p = last pre")
  case True
  then show ?thesis by simp
next
  case False
  from assms(2) have ne: "pre \<noteq> []" by auto
  then have split: "pre = butlast pre @ [last pre]" by simp
  with assms(2) False have "p \<in> set (butlast pre)"
    by (metis Un_iff empty_iff empty_set set_ConsD set_append)
  moreover from assms(1) split have "sorted_wrt (\<lambda>a b. f a \<ge> f b) (butlast pre @ [last pre])"
    by simp
  ultimately show ?thesis by (simp add: sorted_wrt_append)
qed

lemma rank_pass_counts:
  assumes "sorted_wrt (\<lambda>a b. f a \<ge> f b) (pre @ xs)"
    and "i = int (length pre) + 1"
    and "prev = (if pre = [] then None
                 else Some (f (last pre),
                            int (length (filter (\<lambda>y. f y > f (last pre)) pre)) + 1))"
  shows "rank_pass f i prev xs =
           map (\<lambda>x. (x, int (length (filter (\<lambda>y. f y > f x) (pre @ xs))) + 1)) xs"
  using assms
proof (induction xs arbitrary: pre i prev)
  case Nil
  then show ?case by simp
next
  case (Cons x xs)
  let ?cnt = "\<lambda>z zs. int (length (filter (\<lambda>y. f y > f z) zs)) + 1"
  from Cons.prems(1) have pre_ge: "\<forall>p \<in> set pre. f p \<ge> f x"
    and post_le: "\<forall>y \<in> set xs. f x \<ge> f y" and spre: "sorted_wrt (\<lambda>a b. f a \<ge> f b) pre"
    by (auto simp: sorted_wrt_append)
  have nopost: "filter (\<lambda>y. f y > f x) (x # xs) = []"
    using post_le by (auto simp: filter_empty_conv)
  have cnt_x: "?cnt x (pre @ x # xs) = ?cnt x pre"
    using nopost by simp
  define r where "r = (case prev of None \<Rightarrow> i | Some (s, r0) \<Rightarrow> if f x = s then r0 else i)"
  have r: "r = ?cnt x pre"
  proof (cases "pre = []")
    case True
    with Cons.prems(2,3) show ?thesis by (simp add: r_def)
  next
    case False
    then have prev: "prev = Some (f (last pre), ?cnt (last pre) pre)"
      using Cons.prems(3) by simp
    show ?thesis
    proof (cases "f x = f (last pre)")
      case True
      with prev show ?thesis by (simp add: r_def)
    next
      case neq: False
      from False have "last pre \<in> set pre" by simp
      with pre_ge neq have lt: "f x < f (last pre)" by force
      have "\<forall>p \<in> set pre. f p > f x"
        using sorted_wrt_last_least [OF spre] lt by force
      then have "filter (\<lambda>y. f y > f x) pre = pre" by (simp add: filter_id_conv)
      with prev neq Cons.prems(2) show ?thesis by (simp add: r_def)
    qed
  qed
  have s': "sorted_wrt (\<lambda>a b. f a \<ge> f b) ((pre @ [x]) @ xs)"
    using Cons.prems(1) by simp
  have i': "i + 1 = int (length (pre @ [x])) + 1"
    using Cons.prems(2) by simp
  have p': "Some (f x, r) = (if pre @ [x] = [] then None
      else Some (f (last (pre @ [x])), ?cnt (last (pre @ [x])) (pre @ [x])))"
    using r by simp
  from Cons.IH [OF s' i' p']
  have "rank_pass f (i + 1) (Some (f x, r)) xs =
      map (\<lambda>z. (z, ?cnt z (pre @ x # xs))) xs"
    by simp
  then show ?case
    using r cnt_x by (simp add: r_def Let_def)
qed

lemma ranked_users_eq:
  "ranked_users lb us =
     map (\<lambda>r. (r, count_position lb us r))
       (sort_key (\<lambda>r. - l_score (fst r)) (active_rows lb us))"
proof -
  let ?f = "\<lambda>r :: leaderboard_row \<times> user_row. l_score (fst r)"
  let ?k = "\<lambda>r :: leaderboard_row \<times> user_row. - l_score (fst r)"
  let ?srt = "sort_key ?k (active_rows lb us)"
  have "sorted (map ?k ?srt)" by (rule sorted_sort_key)
  then have s: "sorted_wrt (\<lambda>a b. ?f a \<ge> ?f b) ([] @ ?srt)"
    by (simp add: sorted_map)
  have cnt: "length (filter (\<lambda>y. ?f y > ?f x) ?srt) =
      length (filter (\<lambda>y. ?f y > ?f x) (active_rows lb us))" for x
    by (simp add: filter_sort)
  from rank_pass_counts [OF s, of 1 None]
  have "rank_pass ?f 1 None ?srt =
      map (\<lambda>x. (x, int (length (filter (\<lambda>y. ?f y > ?f x) ?srt)) + 1)) ?srt"
    by simp
  then show ?thesis
    by (simp add: ranked_users_def count_position_def cnt)
qed

lemma rank_by_window_eq:
  "rank_by_window lb us user_id =
     map (\<lambda>r. (u_username (snd r), l_score (fst r), count_position lb us r))
       (sort_key (\<lambda>r. - l_score (fst r))
          (filter (\<lambda>r. l_user_id (fst r) = user_id \<and> u_is_active (snd r))
             (leaderboard_join_users lb us)))"
proof -
  have "filter (\<lambda>r. l_user_id (fst r) = user_id) (active_rows lb us) =
      filter (\<lambda>r. l_user_id (fst r) = user_id \<and> u_is_active (snd r))
        (leaderboard_join_users lb us)"
    by (simp add: active_rows_def conj_commute)
  then show ?thesis
    by (simp add: rank_by_window_def ranked_users_eq filter_map comp_def filter_sort)
qed

lemma set_rank_by_window:
  "set (rank_by_window lb us user_id) = set (rank_by_count lb us user_id)"
  by (simp add: rank_by_window_eq rank_by_count_def)

lemma length_rank_by_window:
  "length (rank_by_window lb us user_id) = length (rank_by_count lb us user_id)"
  by (simp add: rank_by_window_eq rank_by_count_def)


lemma filter_key_unique:
  "distinct (map g xs) \<Longrightarrow> length (filter (\<lambda>x. g x = a \<and> P x) xs) \<le> 1"
proof (induction xs)
  case Nil
  then show ?case by simp
next
  case (Cons x xs)
  show ?case
  proof (cases "g x = a")
    case True
    from Cons.prems have "g x \<notin> g ` set xs" by simp
    with True have "\<forall>y \<in> set xs. g y \<noteq> a" by blast
    then have "filter (\<lambda>x. g x = a \<and> P x) xs = []" by (auto simp: filter_empty_conv)
    then show ?thesis by simp
  next
    case False
    with Cons show ?thesis by simp
  qed
qed

lemma join_keys_subset:
  "(\<lambda>r. l_user_id (fst r)) ` set (leaderboard_join_users lb us) \<subseteq> l_user_id ` set lb"
  by (auto simp: leaderboard_join_users_def)

lemma distinct_join_keys:
  assumes "distinct (map l_user_id lb)" and "distinct (map u_user_id us)"
  shows "distinct (map (\<lambda>r. l_user_id (fst r)) (leaderboard_join_users lb us))"
  using assms(1)
proof (induction lb)
  case Nil
  then show ?case by (simp add: leaderboard_join_users_def)
next
  case (Cons l lb)
  let ?m = "filter (\<lambda>u. l_user_id l = u_user_id u) us"
  have split: "leaderboard_join_users (l # lb) us =
      map (\<lambda>u. (l, u)) ?m @ leaderboard_join_users lb us"
    by (simp add: leaderboard_join_users_def)
  have "?m = filter (\<lambda>u. u_user_id u = l_user_id l \<and> True) us"
    by (simp add: eq_commute)
  with filter_key_unique [OF assms(2), of "l_user_id l" "\<lambda>u. True"]
  have "length ?m \<le> 1" by simp
  then have one: "distinct (map (\<lambda>r. l_user_id (fst r)) (map (\<lambda>u. (l, u)) ?m))"
    by (cases ?m) (simp_all add: comp_def)
  from Cons.prems have rest: "distinct (map (\<lambda>r. l_user_id (fst r)) (leaderboard_join_users lb us))"
    using Cons.IH by simp
  define A where "A = set (map (\<lambda>r. l_user_id (fst r)) (map (\<lambda>u. (l, u)) ?m))"
  define B where "B = set (map (\<lambda>r. l_user_id (fst r)) (leaderboard_join_users lb us))"
  from Cons.prems have "l_user_id l \<notin> l_user_id ` set lb" by simp
  moreover have "B \<subseteq> l_user_id ` set lb"
    unfolding B_def using join_keys_subset [of lb us] by simp
  ultimately have notin: "l_user_id l \<notin> B" by (rule contra_subsetD [rotated])
  have sub: "A \<subseteq> {l_user_id l}"
    unfolding A_def by auto
  have disj: "A \<inter> B = {}"
  proof (rule equals0I)
    fix v
    assume "v \<in> A \<inter> B"
    then have "v \<in> A" and vB: "v \<in> B" by simp_all
    with sub have "v = l_user_id l" by auto
    with vB notin show False by simp
  qed
  from one rest disj show ?case
    unfolding split A_def B_def by (simp only: map_append distinct_append simp_thms)
qed

lemma sort_key_short: "length xs \<le> 1 \<Longrightarrow> sort_key k xs = xs"
  by (cases xs) simp_all

lemma rank_by_window_unique_keys:
  assumes "distinct (map l_user_id lb)" and "distinct (map u_user_id us)"
  shows "rank_by_window lb us user_id = rank_by_count lb us user_id"
proof -
  from filter_key_unique [OF distinct_join_keys [OF assms], of user_id "\<lambda>r. u_is_active (snd r)"]
  have "length (filter (\<lambda>r. l_user_id (fst r) = user_id \<and> u_is_active (snd r))
      (leaderboard_join_users lb us)) \<le> 1" .
  then show ?thesis
    by (simp add: rank_by_window_eq rank_by_count_def sort_key_short)
qed

lemma set_ranked_users:
  "set (ranked_users lb us) = (\<lambda>r. (r, count_position lb us r)) ` set (active_rows lb us)"
  by (simp add: ranked_users_eq)

lemma tie_window:
  "map (rank_by_window tie_leaderboard tie_users) [1, 2, 3, 4] =
     [[(''Player1'', 500, 2)], [(''Player2'', 600, 1)], [(''Player3'', 400, 4)], [(''Player4'', 500, 2)]]"
  by (simp add: rank_by_window_def ranked_users_def active_rows_def leaderboard_join_users_def
      tie_users_def tie_leaderboard_def)

lemma tie_count:
  "map (rank_by_count tie_leaderboard tie_users) [1, 2, 3, 4] =
     [[(''Player1'', 500, 2)], [(''Player2'', 600, 1)], [(''Player3'', 400, 4)], [(''Player4'', 500, 2)]]"
  by (simp add: rank_by_count_def count_position_def active_rows_def leaderboard_join_users_def
      tie_users_def tie_leaderboard_def)


text \<open>
  C1. On every snapshot of the two tables the window strategy assigns to every active
  row exactly the rank of the counting strategy, 1 plus the number of active rows with
  a strictly greater score; the rows the two queries return for a user id are the same
  up to their order, and with unique user ids in both tables \<^verbatim>\<open>fetchone\<close> gives the same
  answer for both. On the population with the scores 600, 500, 500 and 400 both
  strategies rank the 600-scorer 1, both 500-scorers 2 and the 400-scorer 4.
\<close>

theorem rank_strategies_agree:
  "set (ranked_users lb us) = (\<lambda>r. (r, count_position lb us r)) ` set (active_rows lb us) \<and>
   set (rank_by_window lb us user_id) = set (rank_by_count lb us user_id) \<and>
   length (rank_by_window lb us user_id) = length (rank_by_count lb us user_id) \<and>
   (distinct (map l_user_id lb) \<and> distinct (map u_user_id us) \<longrightarrow>
      fetchone (rank_by_window lb us user_id) = fetchone (rank_by_count lb us user_id)) \<and>
   map (\<lambda>i. fetchone (rank_by_count tie_leaderboard tie_users i)) [1, 2, 3, 4] =
     [Some (''Player1'', 500, 2), Some (''Player2'', 600, 1),
      Some (''Player3'', 400, 4), Some (''Player4'', 500, 2)] \<and>
   map (\<lambda>i. fetchone (rank_by_window tie_leaderboard tie_users i)) [1, 2, 3, 4] =
     [Some (''Player1'', 500, 2), Some (''Player2'', 600, 1),
      Some (''Player3'', 400, 4), Some (''Player4'', 500, 2)]"
proof -
  have u: "distinct (map l_user_id lb) \<and> distinct (map u_user_id us) \<longrightarrow>
      fetchone (rank_by_window lb us user_id) = fetchone (rank_by_count lb us user_id)"
    by (simp add: rank_by_window_unique_keys)
  have c: "map (\<lambda>i. fetchone (rank_by_count tie_leaderboard tie_users i)) [1, 2, 3, 4] =
     [Some (''Player1'', 500, 2), Some (''Player2'', 600, 1),
      Some (''Player3'', 400, 4), Some (''Player4'', 500, 2)]"
    using tie_count by (simp add: fetchone_def)
  have w: "map (\<lambda>i. fetchone (rank_by_window tie_leaderboard tie_users i)) [1, 2, 3, 4] =
     [Some (''Player1'', 500, 2), Some (''Player2'', 600, 1),
      Some (''Player3'', 400, 4), Some (''Player4'', 500, 2)]"
    using tie_window by (simp add: fetchone_def)
  from set_ranked_users [of lb us] set_rank_by_window [of lb us user_id]
    length_rank_by_window [of lb us user_id] u c w
  show ?thesis by (intro conjI)
qed

theorem rank_strategies_agree_witness:
  "distinct (map l_user_id [\<lparr>l_user_id = 1, l_score = 500, l_games_played = 10\<rparr>,
      \<lparr>l_user_id = 5, l_score = 900, l_games_played = 20\<rparr>,
      \<lparr>l_user_id = 7, l_score = 600, l_games_played = 30\<rparr>,
      \<lparr>l_user_id = 4, l_score = 500, l_games_played = 40\<rparr>]) \<and>
   distinct (map u_user_id [\<lparr>u_user_id = 1, u_username = ''Player1'', u_is_active = True\<rparr>,
      \<lparr>u_user_id = 4, u_username = ''Player4'', u_is_active = True\<rparr>,
      \<lparr>u_user_id = 5, u_username = ''Player5'', u_is_active = False\<rparr>,
      \<lparr>u_user_id = 7, u_username = ''Player7'', u_is_active = True\<rparr>]) \<and>
   fetchone (rank_by_count [\<lparr>l_user_id = 1, l_score = 500, l_games_played = 10\<rparr>,
      \<lparr>l_user_id = 5, l_score = 900, l_games_played = 20\<rparr>,
      \<lparr>l_user_id = 7, l_score = 600, l_games_played = 30\<rparr>,
      \<lparr>l_user_id = 4, l_score = 500, l_games_played = 40\<rparr>] [\<lparr>u_user_id = 1, u_username = ''Player1'', u_is_active = True\<rparr>,
      \<lparr>u_user_id = 4, u_username = ''Player4'', u_is_active = True\<rparr>,
      \<lparr>u_user_id = 5, u_username = ''Player5'', u_is_active = False\<rparr>,
      \<lparr>u_user_id = 7, u_username = ''Player7'', u_is_active = True\<rparr>] 4) = Some (''Player4'', 500, 2) \<and>
   fetchone (rank_by_window [\<lparr>l_user_id = 1, l_score = 500, l_games_played = 10\<rparr>,
      \<lparr>l_user_id = 5, l_score = 900, l_games_played = 20\<rparr>,
      \<lparr>l_user_id = 7, l_score = 600, l_games_played = 30\<rparr>,
      \<lparr>l_user_id = 4, l_score = 500, l_games_played = 40\<rparr>] [\<lparr>u_user_id = 1, u_username = ''Player1'', u_is_active = True\<rparr>,
      \<lparr>u_user_id = 4, u_username = ''Player4'', u_is_active = True\<rparr>,
      \<lparr>u_user_id = 5, u_username = ''Player5'', u_is_active = False\<rparr>,
      \<lparr>u_user_id = 7, u_username = ''Player7'', u_is_active = True\<rparr>] 4) = Some (''Player4'', 500, 2) \<and>
   fetchone (rank_by_count [\<lparr>l_user_id = 1, l_score = 500, l_games_played = 10\<rparr>,
      \<lparr>l_user_id = 5, l_score = 900, l_games_played = 20\<rparr>,
      \<lparr>l_user_id = 7, l_score = 600, l_games_played = 30\<rparr>,
      \<lparr>l_user_id = 4, l_score = 500, l_games_played = 40\<rparr>] [\<lparr>u_user_id = 1, u_username = ''Player1'', u_is_active = True\<rparr>,
      \<lparr>u_user_id = 4, u_username = ''Player4'', u_is_active = True\<rparr>,
      \<lparr>u_user_id = 5, u_username = ''Player5'', u_is_active = False\<rparr>,
      \<lparr>u_user_id = 7, u_username = ''Player7'', u_is_active = True\<rparr>] 5) = None \<and>
   fetchone (rank_by_window [\<lparr>l_user_id = 1, l_score = 500, l_games_played = 10\<rparr>,
      \<lparr>l_user_id = 5, l_score = 900, l_games_played = 20\<rparr>,
      \<lparr>l_user_id = 7, l_score = 600, l_games_played = 30\<rparr>,
      \<lparr>l_user_id = 4, l_score = 500, l_games_played = 40\<rparr>] [\<lparr>u_user_id = 1, u_username = ''Player1'', u_is_active = True\<rparr>,
      \<lparr>u_user_id = 4, u_username = ''Player4'', u_is_active = True\<rparr>,
      \<lparr>u_user_id = 5, u_username = ''Player5'', u_is_active = False\<rparr>,
      \<lparr>u_user_id = 7, u_username = ''Player7'', u_is_active = True\<rparr>] 5) = None"
proof -
  let ?lb = "[\<lparr>l_user_id = 1, l_score = 500, l_games_played = 10\<rparr>,
      \<lparr>l_user_id = 5, l_score = 900, l_games_played = 20\<rparr>,
      \<lparr>l_user_id = 7, l_score = 600, l_games_played = 30\<rparr>,
      \<lparr>l_user_id = 4, l_score = 500, l_games_played = 40\<rparr>]"
  let ?us = "[\<lparr>u_user_id = 1, u_username = ''Player1'', u_is_active = True\<rparr>,
      \<lparr>u_user_id = 4, u_username = ''Player4'', u_is_active = True\<rparr>,
      \<lparr>u_user_id = 5, u_username = ''Player5'', u_is_active = False\<rparr>,
      \<lparr>u_user_id = 7, u_username = ''Player7'', u_is_active = True\<rparr>]"
  have d: "distinct (map l_user_id ?lb) \<and> distinct (map u_user_id ?us)" by simp
  have c4: "fetchone (rank_by_count ?lb ?us 4) = Some (''Player4'', 500, 2)"
    by (simp add: fetchone_def rank_by_count_def count_position_def active_rows_def
        leaderboard_join_users_def)
  have c5: "fetchone (rank_by_count ?lb ?us 5) = None"
    by (simp add: fetchone_def rank_by_count_def count_position_def active_rows_def
        leaderboard_join_users_def)
  from rank_strategies_agree [of ?lb ?us 4] d c4
  have w4: "fetchone (rank_by_window ?lb ?us 4) = Some (''Player4'', 500, 2)" by metis
  from rank_strategies_agree [of ?lb ?us 5] d c5
  have w5: "fetchone (rank_by_window ?lb ?us 5) = None" by metis
  from d c4 w4 c5 w5 show ?thesis by simp
qed

end
